theory Spec2Isabelle
  imports Main "HOL-Library.Word"
begin

section \<open>Errors and sequencing\<close>

text \<open>
  Every \<^verbatim>\<open>throw\<close> of the TypeScript sources, and every exception raised by a library
  call they make, is a value of \<open>error\<close>; a fallible function returns \<open>error + 'a\<close>
  with \<open>Inl\<close> for the exception.
  \<^item> \<open>NumberOutOfRange\<close>: \<^verbatim>\<open>new Error('Number out of range')\<close> of the I80F48 constructor;
  \<^item> \<open>BadArrayLength\<close>: \<^verbatim>\<open>new Error('Uint8Array must be of length 16')\<close> of \<^verbatim>\<open>fromArray\<close>;
  \<^item> \<open>AssertionFailed\<close>: a failed \<^verbatim>\<open>assert\<close> inside bn.js (division by zero, a byte array
    longer than the requested length);
  \<^item> \<open>TypeError\<close>: a property read on \<^verbatim>\<open>undefined\<close> (an array read out of range followed
    by a field access or a method call);
  \<^item> \<open>OutOfBounds\<close>: the \<^verbatim>\<open>RangeError\<close> of a Buffer read or write outside the buffer;
  \<^item> \<open>InvalidEnum\<close>: \<^verbatim>\<open>new Error('Invalid ' + property)\<close> of \<^verbatim>\<open>EnumLayout.decode\<close>;
  \<^item> \<open>NoOracle\<close>: \<^verbatim>\<open>new Error('No oracle for this tokenIndex')\<close> of \<^verbatim>\<open>getTokenDecimals\<close>.
\<close>

datatype error =
    NumberOutOfRange
  | BadArrayLength
  | AssertionFailed
  | TypeError
  | OutOfBounds
  | InvalidEnum
  | NoOracle

definition bindE :: "error + 'a \<Rightarrow> ('a \<Rightarrow> error + 'b) \<Rightarrow> error + 'b" where
  "bindE m f = (case m of Inl e \<Rightarrow> Inl e | Inr v \<Rightarrow> f v)"

text \<open>JavaScript array read \<^verbatim>\<open>xs[i]\<close>: \<^verbatim>\<open>undefined\<close> out of range.\<close>

definition at :: "'a list \<Rightarrow> nat \<Rightarrow> 'a option" where
  "at xs i = (if i < length xs then Some (xs ! i) else None)"

text \<open>\<^verbatim>\<open>xs[i].field\<close>: the read of a field of \<^verbatim>\<open>undefined\<close> throws a TypeError.\<close>

definition atE :: "'a list \<Rightarrow> nat \<Rightarrow> error + 'a" where
  "atE xs i = (case at xs i of None \<Rightarrow> Inl TypeError | Some v \<Rightarrow> Inr v)"

section \<open>The big integers of bn.js\<close>

text \<open>
  A \<^verbatim>\<open>BN\<close> is an unbounded integer kept as a sign and a magnitude; it is modelled as
  \<open>int\<close>. The shifts \<^verbatim>\<open>iushrn\<close>/\<^verbatim>\<open>ushln\<close> are the "unsigned" shifts of bn.js: they move
  the words of the magnitude and leave the sign alone (a magnitude of zero is
  normalised to the non-negative zero). \<^verbatim>\<open>div\<close> divides the magnitudes and gives the
  quotient the sign of the exact quotient, and asserts that the divisor is not zero.
\<close>

definition bn_ushrn :: "int \<Rightarrow> nat \<Rightarrow> int" where
  "bn_ushrn x k = sgn x * (\<bar>x\<bar> div 2 ^ k)"

definition bn_ushln :: "int \<Rightarrow> nat \<Rightarrow> int" where
  "bn_ushln x k = sgn x * (\<bar>x\<bar> * 2 ^ k)"

definition bn_div :: "int \<Rightarrow> int \<Rightarrow> error + int" where
  "bn_div a b =
     (if b = 0 then Inl AssertionFailed
      else Inr (sgn a * sgn b * (\<bar>a\<bar> div \<bar>b\<bar>)))"

text \<open>
  \<^verbatim>\<open>inotn(128)\<close> on a magnitude: the low 128 bits are complemented; the 128 bits fill
  four whole 26-bit words and 24 bits of the fifth, whose two upper bits are masked
  away; words above the fifth are kept.
\<close>

definition bn_inotn128 :: "int \<Rightarrow> int" where
  "bn_inotn128 m = (m div 2 ^ 130) * 2 ^ 130 + (2 ^ 128 - 1 - m mod 2 ^ 128)"

text \<open>\<^verbatim>\<open>toTwos(128)\<close>: \<^verbatim>\<open>this.abs().inotn(width).iaddn(1)\<close> for a negative number, a copy otherwise.\<close>

definition bn_toTwos128 :: "int \<Rightarrow> int" where
  "bn_toTwos128 x = (if x < 0 then bn_inotn128 \<bar>x\<bar> + 1 else x)"

text \<open>\<^verbatim>\<open>fromTwos(128)\<close>: \<^verbatim>\<open>this.notn(width).iaddn(1).ineg()\<close> when bit 127 of the magnitude is set.\<close>

definition bn_fromTwos128 :: "int \<Rightarrow> int" where
  "bn_fromTwos128 x =
     (if (\<bar>x\<bar> div 2 ^ 127) mod 2 = 1 then - (bn_inotn128 \<bar>x\<bar> + 1) else x)"

type_synonym byte = "8 word"

text \<open>\<^verbatim>\<open>new BN(bytes, 'le')\<close>: the unsigned little-endian value of a byte array.\<close>

fun bn_of_le :: "byte list \<Rightarrow> int" where
  "bn_of_le [] = 0"
| "bn_of_le (b # bs) = uint b + 256 * bn_of_le bs"

text \<open>The \<open>n\<close> low bytes of a magnitude, least significant first.\<close>

fun le_bytes :: "nat \<Rightarrow> int \<Rightarrow> byte list" where
  "le_bytes 0 m = []"
| "le_bytes (Suc n) m = word_of_int (m mod 256) # le_bytes n (m div 256)"

text \<open>
  \<^verbatim>\<open>toArray('le', n)\<close> and \<^verbatim>\<open>toArrayLike(Buffer, 'le', n)\<close>: bn.js asserts that the
  magnitude fits into \<open>n\<close> bytes and writes it zero-padded; the sign is not written.
\<close>

definition bn_toArray_le :: "int \<Rightarrow> nat \<Rightarrow> error + byte list" where
  "bn_toArray_le x n =
     (if \<bar>x\<bar> < 256 ^ n \<and> 0 < n then Inr (le_bytes n \<bar>x\<bar>) else Inl AssertionFailed)"

section \<open>The fixed-point type I80F48 (src/utils/fixednum.ts)\<close>

datatype I80F48 = I80F48 (getData: int)

definition MAX_SIZE :: nat where "MAX_SIZE = 128"
definition FRACTIONS :: nat where "FRACTIONS = 48"

definition MAX_BN :: int where "MAX_BN = 2 ^ MAX_SIZE div 2 - 1"
definition MIN_BN :: int where "MIN_BN = - (2 ^ MAX_SIZE div 2)"

text \<open>The constructor: throws when the data is below \<open>MIN_BN\<close> or above \<open>MAX_BN\<close>.\<close>

definition new_I80F48 :: "int \<Rightarrow> error + I80F48" where
  "new_I80F48 d = (if d < MIN_BN \<or> d > MAX_BN then Inl NumberOutOfRange else Inr (I80F48 d))"

text \<open>The constants, built by \<^verbatim>\<open>fromString\<close> from '1', '0' and '-1'.\<close>

definition ONE_I80F48 :: I80F48 where "ONE_I80F48 = I80F48 (2 ^ 48)"
definition ZERO_I80F48 :: I80F48 where "ZERO_I80F48 = I80F48 0"
definition NEG_ONE_I80F48 :: I80F48 where "NEG_ONE_I80F48 = I80F48 (- (2 ^ 48))"

text \<open>\<^verbatim>\<open>fromI64\<close>, \<^verbatim>\<open>fromU64\<close>: \<^verbatim>\<open>new I80F48(x.ushln(48))\<close>.\<close>

definition fromI64 :: "int \<Rightarrow> error + I80F48" where
  "fromI64 x = new_I80F48 (bn_ushln x 48)"

definition fromU64 :: "int \<Rightarrow> error + I80F48" where
  "fromU64 x = new_I80F48 (bn_ushln x 48)"

definition fromArray :: "byte list \<Rightarrow> error + I80F48" where
  "fromArray src =
     (if length src \<noteq> 16 then Inl BadArrayLength
      else new_I80F48 (bn_fromTwos128 (bn_of_le src)))"

definition toArray :: "I80F48 \<Rightarrow> error + byte list" where
  "toArray x = bn_toArray_le (bn_toTwos128 (getData x)) 16"

text \<open>\<^verbatim>\<open>add\<close>, \<^verbatim>\<open>sub\<close>, \<^verbatim>\<open>mul\<close>, \<^verbatim>\<open>div\<close> build a new object through the constructor.\<close>

definition add :: "I80F48 \<Rightarrow> I80F48 \<Rightarrow> error + I80F48" where
  "add a x = new_I80F48 (getData a + getData x)"

definition sub :: "I80F48 \<Rightarrow> I80F48 \<Rightarrow> error + I80F48" where
  "sub a x = new_I80F48 (getData a - getData x)"

definition mul :: "I80F48 \<Rightarrow> I80F48 \<Rightarrow> error + I80F48" where
  "mul a x = new_I80F48 (bn_ushrn (getData a * getData x) FRACTIONS)"

definition div_I80F48 :: "I80F48 \<Rightarrow> I80F48 \<Rightarrow> error + I80F48" where
  "div_I80F48 a x = bindE (bn_div (bn_ushln (getData a) FRACTIONS) (getData x)) new_I80F48"

text \<open>
  \<^verbatim>\<open>iadd\<close>, \<^verbatim>\<open>isub\<close>, \<^verbatim>\<open>imul\<close> update the receiver's \<^verbatim>\<open>data\<close> in place and do not go
  through the constructor: no range check. The functions give the receiver's new value.
\<close>

definition iadd :: "I80F48 \<Rightarrow> I80F48 \<Rightarrow> I80F48" where
  "iadd a x = I80F48 (getData a + getData x)"

definition isub :: "I80F48 \<Rightarrow> I80F48 \<Rightarrow> I80F48" where
  "isub a x = I80F48 (getData a - getData x)"

definition imul :: "I80F48 \<Rightarrow> I80F48 \<Rightarrow> I80F48" where
  "imul a x = I80F48 (bn_ushrn (getData a * getData x) FRACTIONS)"

definition gt :: "I80F48 \<Rightarrow> I80F48 \<Rightarrow> bool" where "gt a x = (getData a > getData x)"
definition lt :: "I80F48 \<Rightarrow> I80F48 \<Rightarrow> bool" where "lt a x = (getData a < getData x)"
definition gte :: "I80F48 \<Rightarrow> I80F48 \<Rightarrow> bool" where "gte a x = (getData a \<ge> getData x)"
definition lte :: "I80F48 \<Rightarrow> I80F48 \<Rightarrow> bool" where "lte a x = (getData a \<le> getData x)"
definition eq :: "I80F48 \<Rightarrow> I80F48 \<Rightarrow> bool" where "eq a x = (getData a = getData x)"

definition neg :: "I80F48 \<Rightarrow> error + I80F48" where
  "neg a = mul a NEG_ONE_I80F48"

definition isPos :: "I80F48 \<Rightarrow> bool" where "isPos a = gt a ZERO_I80F48"
definition isNeg :: "I80F48 \<Rightarrow> bool" where "isNeg a = (getData a < 0)"
definition isZero :: "I80F48 \<Rightarrow> bool" where "isZero a = eq a ZERO_I80F48"

definition min_I80F48 :: "I80F48 \<Rightarrow> I80F48 \<Rightarrow> I80F48" where
  "min_I80F48 a x = (if lte a x then a else x)"

definition max_I80F48 :: "I80F48 \<Rightarrow> I80F48 \<Rightarrow> I80F48" where
  "max_I80F48 a x = (if gte a x then a else x)"

definition abs_I80F48 :: "I80F48 \<Rightarrow> error + I80F48" where
  "abs_I80F48 a = (if isNeg a then neg a else Inr a)"

text \<open>A value is representable when the constructor accepts its data.\<close>

definition representable :: "int \<Rightarrow> bool" where
  "representable d = (MIN_BN \<le> d \<and> d \<le> MAX_BN)"

text \<open>
  The result the multiplication is compared with: the quotient of a double-width
  product by \<open>2^48\<close>, truncated toward zero. It is written with HOL's \<open>div\<close>, which
  rounds toward minus infinity: the two differ by one exactly when the product is
  negative and not a multiple of \<open>2^48\<close>.
\<close>

definition trunc48 :: "int \<Rightarrow> int" where
  "trunc48 p = (if 0 \<le> p \<or> 2 ^ 48 dvd p then p div 2 ^ 48 else p div 2 ^ 48 + 1)"

section \<open>Layout primitives (buffer-layout, src/layout.ts)\<close>

text \<open>
  A \<^verbatim>\<open>Buffer\<close> is a list of bytes. \<^verbatim>\<open>Blob.decode\<close> is \<^verbatim>\<open>b.slice(offset, offset + span)\<close>:
  a slice never throws and is shorter than \<open>span\<close> when the buffer ends early.
  \<^verbatim>\<open>Blob.encode\<close> requires a source of exactly \<open>span\<close> bytes (TypeError), refuses to
  overrun the buffer (RangeError) and returns the span written; the model returns the
  updated buffer beside it.
\<close>

definition Blob_decode :: "byte list \<Rightarrow> nat \<Rightarrow> nat \<Rightarrow> byte list" where
  "Blob_decode b offset span = take span (drop offset b)"

definition Blob_encode :: "byte list \<Rightarrow> byte list \<Rightarrow> nat \<Rightarrow> nat \<Rightarrow> error + (nat \<times> byte list)" where
  "Blob_encode src b offset span =
     (if length src \<noteq> span then Inl TypeError
      else if offset + span > length b then Inl OutOfBounds
      else Inr (span, take offset b @ src @ drop (offset + span) b))"

text \<open>\<^verbatim>\<open>_I80F48Layout\<close>: a 16-byte blob read as a little-endian two's-complement number.\<close>

definition I80F48Layout_decode :: "byte list \<Rightarrow> nat \<Rightarrow> error + I80F48" where
  "I80F48Layout_decode b offset =
     new_I80F48 (bn_fromTwos128 (bn_of_le (Blob_decode b offset 16)))"

definition I80F48Layout_encode :: "I80F48 \<Rightarrow> byte list \<Rightarrow> nat \<Rightarrow> error + (nat \<times> byte list)" where
  "I80F48Layout_encode src b offset =
     bindE (bn_toArray_le (bn_toTwos128 (getData src)) 16) (\<lambda>bytes. Blob_encode bytes b offset 16)"

section \<open>State model entities (src/layout.ts, LyraeGroup.ts, LyraeAccount.ts)\<close>

text \<open>
  The decoded entities, with the fields the health engine reads. A public key is its
  32 bytes. Fields of the same name in two classes carry the class's initials here.
\<close>

type_synonym PublicKey = "byte list"

definition zeroKey :: PublicKey where
  "zeroKey = replicate 32 0"

definition MAX_TOKENS :: nat where "MAX_TOKENS = 16"
definition MAX_PAIRS :: nat where "MAX_PAIRS = MAX_TOKENS - 1"
definition QUOTE_INDEX :: nat where "QUOTE_INDEX = MAX_TOKENS - 1"

record TokenInfo =
  mint :: PublicKey
  rootBank :: PublicKey
  decimals :: nat

record SpotMarketInfo =
  spotMarket :: PublicKey
  sm_maintAssetWeight :: I80F48
  sm_initAssetWeight :: I80F48
  sm_maintLiabWeight :: I80F48
  sm_initLiabWeight :: I80F48
  sm_liquidationFee :: I80F48

record PerpMarketInfo =
  perpMarket :: PublicKey
  pm_maintAssetWeight :: I80F48
  pm_initAssetWeight :: I80F48
  pm_maintLiabWeight :: I80F48
  pm_initLiabWeight :: I80F48
  pm_liquidationFee :: I80F48
  makerFee :: I80F48
  takerFee :: I80F48
  baseLotSize :: int
  quoteLotSize :: int

record LyraeGroup =
  numOracles :: nat
  tokens :: "TokenInfo list"
  spotMarkets :: "SpotMarketInfo list"
  perpMarkets :: "PerpMarketInfo list"
  oracles :: "PublicKey list"

record PriceCache =
  price :: I80F48
  pc_lastUpdate :: int

record RootBankCache =
  depositIndex :: I80F48
  borrowIndex :: I80F48
  rb_lastUpdate :: int

record PerpMarketCache =
  longFunding :: I80F48
  shortFunding :: I80F48
  pmc_lastUpdate :: int

record LyraeCache =
  priceCache :: "PriceCache list"
  rootBankCache :: "RootBankCache list"
  perpMarketCache :: "PerpMarketCache list"

text \<open>The open-orders account of the spot venue: the five quantities the engine reads.\<close>

record OpenOrders =
  baseTokenFree :: int
  baseTokenTotal :: int
  quoteTokenFree :: int
  quoteTokenTotal :: int
  referrerRebatesAccrued :: int

record PerpAccount =
  basePosition :: int
  quotePosition :: I80F48
  longSettledFunding :: I80F48
  shortSettledFunding :: I80F48
  bidsQuantity :: int
  asksQuantity :: int
  takerBase :: int
  takerQuote :: int
  lyrAccrued :: int

record LyraeAccount =
  publicKey :: PublicKey
  inMarginBasket :: "bool list"
  deposits :: "I80F48 list"
  borrows :: "I80F48 list"
  spotOpenOrdersAccounts :: "OpenOrders option list"
  perpAccounts :: "PerpAccount list"
  beingLiquidated :: bool
  isBankrupt :: bool

datatype HealthType = Init | Maint

section \<open>Price lookups\<close>

text \<open>\<^verbatim>\<open>LyraeCache.getPrice\<close> (src/layout.ts).\<close>

definition LyraeCache_getPrice :: "LyraeCache \<Rightarrow> nat \<Rightarrow> error + I80F48" where
  "LyraeCache_getPrice c tokenIndex =
     (if tokenIndex = QUOTE_INDEX then Inr ONE_I80F48
      else bindE (atE (priceCache c) tokenIndex) (\<lambda>pc. Inr (price pc)))"

text \<open>
  \<^verbatim>\<open>LyraeGroup.getTokenDecimals\<close> and \<^verbatim>\<open>LyraeGroup.getPrice\<close> (src/LyraeGroup.ts). The
  price of a non-quote token is the cached price scaled by a power of ten; that
  scaling runs in the decimal arithmetic of big.js (\<^verbatim>\<open>toBig\<close>, \<^verbatim>\<open>Big.pow\<close>, \<^verbatim>\<open>Big.mul\<close>,
  \<^verbatim>\<open>fromBig\<close>), which is a parameter \<open>scale\<close> of the model: it receives the cached
  price, when the cache has an entry at the index, and the difference of the decimals.
\<close>

definition getTokenDecimals :: "LyraeGroup \<Rightarrow> nat \<Rightarrow> error + nat" where
  "getTokenDecimals g tokenIndex =
     bindE (atE (tokens g) tokenIndex) (\<lambda>tokenInfo.
       if decimals tokenInfo = 0 then
         bindE (atE (oracles g) tokenIndex) (\<lambda>oracle.
           if oracle = zeroKey then Inl NoOracle else Inr 6)
       else Inr (decimals tokenInfo))"

definition LyraeGroup_getPrice ::
  "(I80F48 option \<Rightarrow> int \<Rightarrow> error + I80F48) \<Rightarrow> LyraeGroup \<Rightarrow> nat \<Rightarrow> LyraeCache \<Rightarrow> error + I80F48" where
  "LyraeGroup_getPrice scale g tokenIndex lyraeCache =
     (if tokenIndex = QUOTE_INDEX then Inr ONE_I80F48
      else
        bindE (getTokenDecimals g tokenIndex) (\<lambda>d.
        bindE (getTokenDecimals g QUOTE_INDEX) (\<lambda>dq.
          scale (map_option price (at (priceCache lyraeCache) tokenIndex)) (int d - int dq))))"

section \<open>Weights and open orders (src/utils/utils.ts)\<close>

record Weights =
  spotAssetWeight :: I80F48
  spotLiabWeight :: I80F48
  perpAssetWeight :: I80F48
  perpLiabWeight :: I80F48

text \<open>\<^verbatim>\<open>getWeights\<close>: the health type is optional; without one every weight is one.\<close>

definition getWeights :: "LyraeGroup \<Rightarrow> nat \<Rightarrow> HealthType option \<Rightarrow> error + Weights" where
  "getWeights lyraeGroup marketIndex healthType =
     (case healthType of
        Some Maint \<Rightarrow>
          bindE (atE (spotMarkets lyraeGroup) marketIndex) (\<lambda>sm.
          bindE (atE (perpMarkets lyraeGroup) marketIndex) (\<lambda>pm.
            Inr \<lparr>spotAssetWeight = sm_maintAssetWeight sm,
                 spotLiabWeight = sm_maintLiabWeight sm,
                 perpAssetWeight = pm_maintAssetWeight pm,
                 perpLiabWeight = pm_maintLiabWeight pm\<rparr>))
      | Some Init \<Rightarrow>
          bindE (atE (spotMarkets lyraeGroup) marketIndex) (\<lambda>sm.
          bindE (atE (perpMarkets lyraeGroup) marketIndex) (\<lambda>pm.
            Inr \<lparr>spotAssetWeight = sm_initAssetWeight sm,
                 spotLiabWeight = sm_initLiabWeight sm,
                 perpAssetWeight = pm_initAssetWeight pm,
                 perpLiabWeight = pm_initLiabWeight pm\<rparr>))
      | None \<Rightarrow>
          Inr \<lparr>spotAssetWeight = ONE_I80F48, spotLiabWeight = ONE_I80F48,
               perpAssetWeight = ONE_I80F48, perpLiabWeight = ONE_I80F48\<rparr>)"

record SplitOpenOrders =
  quoteFree :: I80F48
  quoteLocked :: I80F48
  baseFree :: I80F48
  baseLocked :: I80F48

definition splitOpenOrders :: "OpenOrders \<Rightarrow> error + SplitOpenOrders" where
  "splitOpenOrders openOrders =
     bindE (fromU64 (quoteTokenFree openOrders + referrerRebatesAccrued openOrders)) (\<lambda>qf.
     bindE (fromU64 (quoteTokenTotal openOrders - quoteTokenFree openOrders)) (\<lambda>ql.
     bindE (fromU64 (baseTokenFree openOrders)) (\<lambda>bf.
     bindE (fromU64 (baseTokenTotal openOrders - baseTokenFree openOrders)) (\<lambda>bl.
       Inr \<lparr>quoteFree = qf, quoteLocked = ql, baseFree = bf, baseLocked = bl\<rparr>))))"

section \<open>The health engine (src/LyraeAccount.ts)\<close>

text \<open>A \<^verbatim>\<open>for\<close> loop over a list of indices whose body can throw.\<close>

fun foldE :: "('a \<Rightarrow> 's \<Rightarrow> error + 's) \<Rightarrow> 'a list \<Rightarrow> 's \<Rightarrow> error + 's" where
  "foldE f [] s = Inr s"
| "foldE f (x # xs) s = bindE (f x s) (foldE f xs)"

text \<open>
  \<^verbatim>\<open>getNet\<close>: the bank cache is the array entry the caller read, \<^verbatim>\<open>undefined\<close> when the
  index is outside the cache.
\<close>

definition getNet :: "LyraeAccount \<Rightarrow> RootBankCache option \<Rightarrow> nat \<Rightarrow> error + I80F48" where
  "getNet acct bankCache tokenIndex =
     bindE (atE (deposits acct) tokenIndex) (\<lambda>dep.
     bindE (case bankCache of None \<Rightarrow> Inl TypeError | Some bc \<Rightarrow> Inr bc) (\<lambda>bc.
     bindE (mul dep (depositIndex bc)) (\<lambda>d.
     bindE (atE (borrows acct) tokenIndex) (\<lambda>bor.
     bindE (mul bor (borrowIndex bc)) (\<lambda>b.
       sub d b)))))"

record HealthComponents =
  hc_spot :: "I80F48 list"
  hc_perps :: "I80F48 list"
  hc_quote :: I80F48

text \<open>
  The spot half of one iteration of \<^verbatim>\<open>getHealthComponents\<close>. the quote component is the one
  object the loop updates in place with \<^verbatim>\<open>iadd\<close>; the entries of the spot array are fresh
  objects.
\<close>

definition evalSpot ::
  "LyraeCache \<Rightarrow> LyraeAccount \<Rightarrow> nat \<Rightarrow> HealthComponents \<Rightarrow> error + HealthComponents" where
  "evalSpot lyraeCache acct i hc =
     (let bankCache = at (rootBankCache lyraeCache) i in
      bindE (atE (priceCache lyraeCache) i) (\<lambda>pc.
      let price = price pc in
      bindE (getNet acct bankCache i) (\<lambda>baseNet.
      let openOrders = (case at (spotOpenOrdersAccounts acct) i of None \<Rightarrow> None | Some oo \<Rightarrow> oo) in
      case (at (inMarginBasket acct) i, openOrders) of
        (Some True, Some oo) \<Rightarrow>
          bindE (splitOpenOrders oo) (\<lambda>s.
          bindE (div_I80F48 (quoteLocked s) price) (\<lambda>t.
          bindE (add baseNet t) (\<lambda>b0.
          let bidsBaseNet = iadd (iadd b0 (baseFree s)) (baseLocked s) in
          bindE (add baseNet (baseFree s)) (\<lambda>asksBaseNet.
          bindE (abs_I80F48 bidsBaseNet) (\<lambda>ba.
          bindE (abs_I80F48 asksBaseNet) (\<lambda>aa.
          if gt ba aa then
            Inr (hc\<lparr>hc_spot := (hc_spot hc)[i := bidsBaseNet], hc_quote := iadd (hc_quote hc) (quoteFree s)\<rparr>)
          else
            bindE (mul (baseLocked s) price) (\<lambda>m.
              Inr (hc\<lparr>hc_spot := (hc_spot hc)[i := asksBaseNet],
                      hc_quote := iadd (iadd (iadd (hc_quote hc) m) (quoteFree s)) (quoteLocked s)\<rparr>))))))))
      | _ \<Rightarrow>
        Inr (hc\<lparr>hc_spot := (hc_spot hc)[i := baseNet]\<rparr>))))"

text \<open>
  The perp half of the iteration. \<^verbatim>\<open>PerpAccount.getQuotePosition\<close> belongs to
  PerpAccount.ts, which is not among the sources: it is the parameter \<open>getQuotePosition\<close>,
  given the perp account and the cache entry the caller read.
\<close>

definition evalPerp ::
  "(PerpAccount \<Rightarrow> PerpMarketCache option \<Rightarrow> error + I80F48) \<Rightarrow>
   LyraeGroup \<Rightarrow> LyraeCache \<Rightarrow> LyraeAccount \<Rightarrow> nat \<Rightarrow> HealthComponents \<Rightarrow> error + HealthComponents" where
  "evalPerp getQuotePosition lyraeGroup lyraeCache acct i hc =
     bindE (atE (priceCache lyraeCache) i) (\<lambda>pc.
     let price = price pc in
     bindE (atE (perpMarkets lyraeGroup) i) (\<lambda>pmi.
     if perpMarket pmi \<noteq> zeroKey then
       (let perpMarketCache = at (perpMarketCache lyraeCache) i in
        bindE (atE (perpAccounts acct) i) (\<lambda>perpAccount.
        bindE (fromI64 (takerQuote perpAccount * quoteLotSize pmi)) (\<lambda>takerQuote.
        bindE (fromI64 ((basePosition perpAccount + takerBase perpAccount) * baseLotSize pmi)) (\<lambda>basePos.
        bindE (fromI64 (bidsQuantity perpAccount * baseLotSize pmi)) (\<lambda>bidsQuantity.
        bindE (fromI64 (asksQuantity perpAccount * baseLotSize pmi)) (\<lambda>asksQuantity.
        bindE (add basePos bidsQuantity) (\<lambda>bidsBaseNet.
        bindE (sub basePos asksQuantity) (\<lambda>asksBaseNet.
        bindE (abs_I80F48 bidsBaseNet) (\<lambda>ba.
        bindE (abs_I80F48 asksBaseNet) (\<lambda>aa.
        if gt ba aa then
          bindE (getQuotePosition perpAccount perpMarketCache) (\<lambda>qp.
          bindE (add qp takerQuote) (\<lambda>q1.
          bindE (mul bidsQuantity price) (\<lambda>m.
          let quotePos = isub q1 m in
            Inr (hc\<lparr>hc_perps := (hc_perps hc)[i := bidsBaseNet], hc_quote := iadd (hc_quote hc) quotePos\<rparr>))))
        else
          bindE (getQuotePosition perpAccount perpMarketCache) (\<lambda>qp.
          bindE (add qp takerQuote) (\<lambda>q1.
          bindE (mul asksQuantity price) (\<lambda>m.
          let quotePos = iadd q1 m in
            Inr (hc\<lparr>hc_perps := (hc_perps hc)[i := asksBaseNet], hc_quote := iadd (hc_quote hc) quotePos\<rparr>))))))))))))))
     else
       Inr (hc\<lparr>hc_perps := (hc_perps hc)[i := ZERO_I80F48]\<rparr>)))"

definition getHealthComponents ::
  "(PerpAccount \<Rightarrow> PerpMarketCache option \<Rightarrow> error + I80F48) \<Rightarrow>
   LyraeGroup \<Rightarrow> LyraeCache \<Rightarrow> LyraeAccount \<Rightarrow> error + HealthComponents" where
  "getHealthComponents getQuotePosition lyraeGroup lyraeCache acct =
     bindE (getNet acct (at (rootBankCache lyraeCache) QUOTE_INDEX) QUOTE_INDEX) (\<lambda>q.
       foldE (\<lambda>i hc. bindE (evalSpot lyraeCache acct i hc)
                       (evalPerp getQuotePosition lyraeGroup lyraeCache acct i))
         [0 ..< numOracles lyraeGroup]
         \<lparr>hc_spot = replicate (numOracles lyraeGroup) ZERO_I80F48,
          hc_perps = replicate (numOracles lyraeGroup) ZERO_I80F48,
          hc_quote = q\<rparr>)"


text \<open>\<^verbatim>\<open>getWeightedAssetsLiabsVals\<close>: the running pair of weighted assets and liabilities.\<close>

definition weightedStep ::
  "LyraeGroup \<Rightarrow> LyraeCache \<Rightarrow> I80F48 list \<Rightarrow> I80F48 list \<Rightarrow> HealthType option \<Rightarrow>
   nat \<Rightarrow> I80F48 \<times> I80F48 \<Rightarrow> error + I80F48 \<times> I80F48" where
  "weightedStep lyraeGroup lyraeCache spot perps healthType i al =
     (case al of (assets, liabs) \<Rightarrow>
      bindE (getWeights lyraeGroup i healthType) (\<lambda>w.
      bindE (atE (priceCache lyraeCache) i) (\<lambda>pc.
      let price = price pc in
      bindE (atE spot i) (\<lambda>s.
      bindE (if isPos s then
               bindE (mul s price) (\<lambda>x.
               bindE (mul x (spotAssetWeight w)) (\<lambda>y.
               bindE (add y assets) (\<lambda>assets'. Inr (assets', liabs))))
             else
               bindE (neg s) (\<lambda>n.
               bindE (mul n price) (\<lambda>x.
               bindE (mul x (spotLiabWeight w)) (\<lambda>y.
               bindE (add y liabs) (\<lambda>liabs'. Inr (assets, liabs'))))))
        (\<lambda>al1. case al1 of (assets1, liabs1) \<Rightarrow>
      bindE (atE perps i) (\<lambda>p.
        if isPos p then
          bindE (mul p price) (\<lambda>x.
          bindE (mul x (perpAssetWeight w)) (\<lambda>y.
          bindE (add y assets1) (\<lambda>assets'. Inr (assets', liabs1))))
        else
          bindE (neg p) (\<lambda>n.
          bindE (mul n price) (\<lambda>x.
          bindE (mul x (perpLiabWeight w)) (\<lambda>y.
          bindE (add y liabs1) (\<lambda>liabs'. Inr (assets1, liabs')))))))))))"

definition getWeightedAssetsLiabsVals ::
  "LyraeGroup \<Rightarrow> LyraeCache \<Rightarrow> I80F48 list \<Rightarrow> I80F48 list \<Rightarrow> I80F48 \<Rightarrow> HealthType option \<Rightarrow>
   error + I80F48 \<times> I80F48" where
  "getWeightedAssetsLiabsVals lyraeGroup lyraeCache spot perps quote healthType =
     bindE (if isPos quote then
              bindE (add ZERO_I80F48 quote) (\<lambda>assets. Inr (assets, ZERO_I80F48))
            else
              bindE (neg quote) (\<lambda>n.
              bindE (add ZERO_I80F48 n) (\<lambda>liabs. Inr (ZERO_I80F48, liabs))))
       (foldE (weightedStep lyraeGroup lyraeCache spot perps healthType)
          [0 ..< numOracles lyraeGroup])"

text \<open>
  \<^verbatim>\<open>getHealthFromComponents\<close>: \<^verbatim>\<open>health\<close> is the caller's \<^verbatim>\<open>quote\<close> object, updated in
  place; the model returns its final value. The products are range-checked by
  \<^verbatim>\<open>mul\<close>, the weighting (\<^verbatim>\<open>imul\<close>) and the accumulation (\<^verbatim>\<open>iadd\<close>) are not.
\<close>

definition healthStep ::
  "LyraeGroup \<Rightarrow> LyraeCache \<Rightarrow> I80F48 list \<Rightarrow> I80F48 list \<Rightarrow> HealthType option \<Rightarrow>
   nat \<Rightarrow> I80F48 \<Rightarrow> error + I80F48" where
  "healthStep lyraeGroup lyraeCache spot perps healthType i health =
     bindE (getWeights lyraeGroup i healthType) (\<lambda>w.
     bindE (atE (priceCache lyraeCache) i) (\<lambda>pc.
     let price = price pc in
     bindE (atE spot i) (\<lambda>s.
     bindE (mul s price) (\<lambda>x.
     let spotHealth = imul x (if isPos s then spotAssetWeight w else spotLiabWeight w) in
     bindE (atE perps i) (\<lambda>p.
     bindE (mul p price) (\<lambda>y.
     let perpHealth = imul y (if isPos p then perpAssetWeight w else perpLiabWeight w) in
       Inr (iadd (iadd health spotHealth) perpHealth)))))))"

definition getHealthFromComponents ::
  "LyraeGroup \<Rightarrow> LyraeCache \<Rightarrow> I80F48 list \<Rightarrow> I80F48 list \<Rightarrow> I80F48 \<Rightarrow> HealthType option \<Rightarrow>
   error + I80F48" where
  "getHealthFromComponents lyraeGroup lyraeCache spot perps quote healthType =
     foldE (healthStep lyraeGroup lyraeCache spot perps healthType)
       [0 ..< numOracles lyraeGroup] quote"

definition getHealth ::
  "(PerpAccount \<Rightarrow> PerpMarketCache option \<Rightarrow> error + I80F48) \<Rightarrow>
   LyraeGroup \<Rightarrow> LyraeCache \<Rightarrow> LyraeAccount \<Rightarrow> HealthType option \<Rightarrow> error + I80F48" where
  "getHealth getQuotePosition lyraeGroup lyraeCache acct healthType =
     bindE (getHealthComponents getQuotePosition lyraeGroup lyraeCache acct) (\<lambda>hc.
       getHealthFromComponents lyraeGroup lyraeCache (hc_spot hc) (hc_perps hc) (hc_quote hc) healthType)"

text \<open>\<^verbatim>\<open>I80F48.fromNumber(100)\<close>: the integer part shifted left by 48 bits, plus a zero fraction.\<close>

definition fromNumber_100 :: "error + I80F48" where
  "fromNumber_100 = new_I80F48 (bn_ushln 100 48 + 0)"

definition getHealthRatio ::
  "(PerpAccount \<Rightarrow> PerpMarketCache option \<Rightarrow> error + I80F48) \<Rightarrow>
   LyraeGroup \<Rightarrow> LyraeCache \<Rightarrow> LyraeAccount \<Rightarrow> HealthType option \<Rightarrow> error + I80F48" where
  "getHealthRatio getQuotePosition lyraeGroup lyraeCache acct healthType =
     bindE (getHealthComponents getQuotePosition lyraeGroup lyraeCache acct) (\<lambda>hc.
     bindE (getWeightedAssetsLiabsVals lyraeGroup lyraeCache (hc_spot hc) (hc_perps hc) (hc_quote hc)
              healthType) (\<lambda>al.
     case al of (assets, liabs) \<Rightarrow>
       if gt liabs ZERO_I80F48 then
         bindE (div_I80F48 assets liabs) (\<lambda>d.
         bindE (sub d ONE_I80F48) (\<lambda>s.
         bindE fromNumber_100 (\<lambda>h.
           mul s h)))
       else fromNumber_100))"

datatype MarketType = SpotMarket | PerpMarket

definition getMarketMarginAvailable ::
  "(PerpAccount \<Rightarrow> PerpMarketCache option \<Rightarrow> error + I80F48) \<Rightarrow>
   LyraeGroup \<Rightarrow> LyraeCache \<Rightarrow> LyraeAccount \<Rightarrow> nat \<Rightarrow> MarketType \<Rightarrow> error + I80F48" where
  "getMarketMarginAvailable getQuotePosition lyraeGroup lyraeCache acct marketIndex marketType =
     bindE (getHealth getQuotePosition lyraeGroup lyraeCache acct (Some Init)) (\<lambda>health.
       if lte health ZERO_I80F48 then Inr ZERO_I80F48
       else
         bindE (getWeights lyraeGroup marketIndex (Some Init)) (\<lambda>w.
         let weight = (if marketType = SpotMarket then spotAssetWeight w else perpAssetWeight w) in
         if gte weight ONE_I80F48 then Inr health
         else bindE (sub ONE_I80F48 weight) (\<lambda>d. div_I80F48 health d)))"

section \<open>Objects shared by reference: \<^verbatim>\<open>getHealthsFromComponents\<close>\<close>






section \<open>Reference quantities and example entities\<close>

text \<open>The integer quotient truncated toward zero, which the properties below compare with.\<close>

definition tdiv :: "int \<Rightarrow> int \<Rightarrow> int" where
  "tdiv a b = sgn a * sgn b * (\<bar>a\<bar> div \<bar>b\<bar>)"

text \<open>
  A group with one oracle, whose only market has no perp market registered; a cache
  with one price and unit indices; an account with one base deposit, one base borrow
  and a quote deposit. The spot weights are 3/4 and 5/4 (maintenance), 1/2 and 3/2
  (initial); the perp weights are one. \<open>noFunding\<close> stands for \<^verbatim>\<open>getQuotePosition\<close> in
  the examples: the stored quote position, with a missing cache entry an error.
\<close>

definition exGroup :: LyraeGroup where
  "exGroup =
     \<lparr>numOracles = 1, tokens = [],
      spotMarkets = [\<lparr>spotMarket = zeroKey,
                      sm_maintAssetWeight = I80F48 (3 * 2 ^ 46), sm_initAssetWeight = I80F48 (2 ^ 47),
                      sm_maintLiabWeight = I80F48 (5 * 2 ^ 46), sm_initLiabWeight = I80F48 (3 * 2 ^ 47),
                      sm_liquidationFee = I80F48 0\<rparr>],
      perpMarkets = [\<lparr>perpMarket = zeroKey,
                      pm_maintAssetWeight = I80F48 (2 ^ 48), pm_initAssetWeight = I80F48 (2 ^ 48),
                      pm_maintLiabWeight = I80F48 (2 ^ 48), pm_initLiabWeight = I80F48 (2 ^ 48),
                      pm_liquidationFee = I80F48 0, makerFee = I80F48 0, takerFee = I80F48 0,
                      baseLotSize = 1, quoteLotSize = 1\<rparr>],
      oracles = []\<rparr>"

definition exCache :: "I80F48 \<Rightarrow> LyraeCache" where
  "exCache p =
     \<lparr>priceCache = [\<lparr>price = p, pc_lastUpdate = 0\<rparr>],
      rootBankCache = replicate 16 \<lparr>depositIndex = I80F48 (2 ^ 48), borrowIndex = I80F48 (2 ^ 48),
                                    rb_lastUpdate = 0\<rparr>,
      perpMarketCache = []\<rparr>"

definition exAccount :: "I80F48 \<Rightarrow> I80F48 \<Rightarrow> I80F48 \<Rightarrow> LyraeAccount" where
  "exAccount d0 b0 dq =
     \<lparr>publicKey = zeroKey, inMarginBasket = [False],
      deposits = d0 # replicate 14 (I80F48 0) @ [dq],
      borrows = b0 # replicate 15 (I80F48 0),
      spotOpenOrdersAccounts = [None], perpAccounts = [],
      beingLiquidated = False, isBankrupt = False\<rparr>"

definition noFunding :: "PerpAccount \<Rightarrow> PerpMarketCache option \<Rightarrow> error + I80F48" where
  "noFunding pa pmc = (case pmc of None \<Rightarrow> Inl TypeError | Some _ \<Rightarrow> Inr (quotePosition pa))"








section \<open>PnL settlement matching (src/client.ts, \<^verbatim>\<open>settlePnl\<close>)\<close>

text \<open>
  A candidate counterparty, as \<^verbatim>\<open>fetchTopPnlAccountsFromRPC\<close> and
  \<^verbatim>\<open>fetchTopPnlAccountsFromDB\<close> return it, and the instructions queued in the
  transaction: the settle-fees instruction and one settle-pnl instruction per matched
  counterparty.
\<close>

record AccountWithPnl =
  awp_publicKey :: PublicKey
  awp_pnl :: I80F48

datatype instruction = SettleFees | SettlePnl PublicKey

text \<open>
  The \<^verbatim>\<open>for ... of\<close> loop over the candidates. \<open>pnl\<close> is the subject's remaining PnL,
  \<open>sign\<close> the sign fixed before the loop, \<open>tx\<close> the instructions queued so far. The
  loop leaves through \<^verbatim>\<open>break\<close> when the remaining sign differs from \<open>sign\<close>, and
  otherwise walks to the end of the list.
\<close>

fun settleLoop ::
  "PublicKey \<Rightarrow> int \<Rightarrow> AccountWithPnl list \<Rightarrow> I80F48 \<Rightarrow> instruction list \<Rightarrow>
   error + (I80F48 \<times> instruction list)" where
  "settleLoop own sign [] pnl tx = Inr (pnl, tx)"
| "settleLoop own sign (account # rest) pnl tx =
     (if awp_publicKey account = own then settleLoop own sign rest pnl tx
      else if ((isPos pnl \<and> isNeg (awp_pnl account)) \<or> (isNeg pnl \<and> isPos (awp_pnl account))) \<and>
              length tx < 10 then
        (case add pnl (awp_pnl account) of
           Inl e \<Rightarrow> Inl e
         | Inr pnl' \<Rightarrow>
             (let tx' = tx @ [SettlePnl (awp_publicKey account)];
                  remSign = (if gt pnl' ZERO_I80F48 then 1 else - 1) in
              if remSign \<noteq> sign then Inr (pnl', tx')
              else settleLoop own sign rest pnl' tx'))
      else settleLoop own sign rest pnl tx)"

text \<open>\<^verbatim>\<open>I80F48.fromString('-0.000001')\<close>: \<open>-0.000001 * 2^48\<close> rounded to the nearest integer.\<close>

definition MINUS_EPSILON :: I80F48 where
  "MINUS_EPSILON = I80F48 (- 281474977)"

text \<open>
  The part of \<^verbatim>\<open>settlePnl\<close> from the computed PnL to the transaction: \<open>None\<close> is the
  \<^verbatim>\<open>null\<close> returned when there is nothing to settle. The candidates are fetched after
  the sign is known and may depend on it.
\<close>

definition settlePnl ::
  "PublicKey \<Rightarrow> I80F48 \<Rightarrow> I80F48 \<Rightarrow> (int \<Rightarrow> AccountWithPnl list) \<Rightarrow>
   error + (I80F48 \<times> instruction list) option" where
  "settlePnl own pnl feesAccrued accountsWithPnl =
     (if eq pnl ZERO_I80F48 then Inr None
      else if gt pnl ZERO_I80F48 then
        bindE (settleLoop own 1 (accountsWithPnl 1) pnl []) (\<lambda>r. Inr (Some r))
      else
        bindE (add pnl feesAccrued) (\<lambda>p.
        let pnl' = min_I80F48 p MINUS_EPSILON;
            remSign = (if gt pnl' ZERO_I80F48 then 1 else - 1) in
        if remSign \<noteq> (- 1 :: int) then Inr (Some (pnl', [SettleFees]))
        else bindE (settleLoop own (- 1) (accountsWithPnl (- 1)) pnl' [SettleFees])
               (\<lambda>r. Inr (Some r))))"

text \<open>
  The candidates the loop can match while the subject's PnL keeps its sign: not the
  subject's own account, and a PnL of the opposite sign.
\<close>

definition eligible :: "PublicKey \<Rightarrow> int \<Rightarrow> AccountWithPnl list \<Rightarrow> AccountWithPnl list" where
  "eligible own sign cands =
     filter (\<lambda>a. awp_publicKey a \<noteq> own \<and> sign * getData (awp_pnl a) < 0) cands"

definition pnlSum :: "AccountWithPnl list \<Rightarrow> int" where
  "pnlSum as = (\<Sum>a\<leftarrow>as. getData (awp_pnl a))"

definition candidatesRepresentable :: "AccountWithPnl list \<Rightarrow> bool" where
  "candidatesRepresentable cands = list_all (\<lambda>a. representable (getData (awp_pnl a))) cands"

definition exKey :: "nat \<Rightarrow> PublicKey" where
  "exKey n = replicate 31 0 @ [of_nat n]"

section \<open>The two hypotheses on resting spot orders\<close>

text \<open>
  The quantities the claim on \<^verbatim>\<open>getHealthComponents\<close> speaks of, as pairs of a spot
  position and a quote adjustment, in raw fixed-point units. "All resting bids
  execute": the confirmed net plus quote-locked divided by the price plus base-free
  plus base-locked, with the quote bucket increased by quote-free. "All resting asks
  execute": the confirmed net plus base-free, with the quote bucket increased by
  base-locked times the price plus quote-free plus quote-locked. The worse hypothesis
  is the one with the strictly larger absolute spot position, the asks hypothesis on
  a tie.
\<close>

definition bidsHypothesis :: "I80F48 \<Rightarrow> I80F48 \<Rightarrow> SplitOpenOrders \<Rightarrow> int \<times> int" where
  "bidsHypothesis baseNet p s =
     (getData baseNet + tdiv (getData (quoteLocked s) * 2 ^ 48) (getData p) +
        getData (baseFree s) + getData (baseLocked s),
      getData (quoteFree s))"

definition asksHypothesis :: "I80F48 \<Rightarrow> I80F48 \<Rightarrow> SplitOpenOrders \<Rightarrow> int \<times> int" where
  "asksHypothesis baseNet p s =
     (getData baseNet + getData (baseFree s),
      trunc48 (getData (baseLocked s) * getData p) + getData (quoteFree s) +
        getData (quoteLocked s))"

definition worseHypothesis :: "int \<times> int \<Rightarrow> int \<times> int \<Rightarrow> int \<times> int" where
  "worseHypothesis bids asks = (if \<bar>fst bids\<bar> > \<bar>fst asks\<bar> then bids else asks)"

text \<open>
  The spot position and the quote adjustment of market \<open>j\<close>: the worse hypothesis when
  the market is in the margin basket with an open-orders account, the confirmed net
  and no adjustment otherwise (and a placeholder where the engine throws).
\<close>

definition spotOutcome :: "LyraeCache \<Rightarrow> LyraeAccount \<Rightarrow> nat \<Rightarrow> int \<times> int" where
  "spotOutcome c a j =
     (case (at (priceCache c) j, getNet a (at (rootBankCache c) j) j) of
        (Some pc, Inr baseNet) \<Rightarrow>
          (case (at (inMarginBasket a) j,
                 case at (spotOpenOrdersAccounts a) j of None \<Rightarrow> None | Some oo \<Rightarrow> oo) of
             (Some True, Some oo) \<Rightarrow>
               (case splitOpenOrders oo of
                  Inr s \<Rightarrow> worseHypothesis (bidsHypothesis baseNet (price pc) s)
                             (asksHypothesis baseNet (price pc) s)
                | Inl e \<Rightarrow> (0, 0))
           | _ \<Rightarrow> (getData baseNet, 0))
      | _ \<Rightarrow> (0, 0))"

text \<open>
  What the perp half of iteration \<open>j\<close> adds to the quote bucket: the change it makes
  to a quote of zero.
\<close>

definition perpQuoteAdj ::
  "(PerpAccount \<Rightarrow> PerpMarketCache option \<Rightarrow> error + I80F48) \<Rightarrow>
   LyraeGroup \<Rightarrow> LyraeCache \<Rightarrow> LyraeAccount \<Rightarrow> nat \<Rightarrow> int" where
  "perpQuoteAdj gqp g c a j =
     (case evalPerp gqp g c a j \<lparr>hc_spot = [], hc_perps = [], hc_quote = ZERO_I80F48\<rparr> of
        Inr h \<Rightarrow> getData (hc_quote h)
      | Inl e \<Rightarrow> 0)"

text \<open>
  An account for the examples whose market 0 is in the margin basket with an
  open-orders account: 3 base free of 5 in total, 4 quote free of 10 in total, no
  rebates.
\<close>

definition exOpenOrders :: OpenOrders where
  "exOpenOrders =
     \<lparr>baseTokenFree = 3, baseTokenTotal = 5, quoteTokenFree = 4, quoteTokenTotal = 10,
      referrerRebatesAccrued = 0\<rparr>"

definition exBasketAccount :: "I80F48 \<Rightarrow> I80F48 \<Rightarrow> LyraeAccount" where
  "exBasketAccount d0 b0 =
     (exAccount d0 b0 (I80F48 0))\<lparr>inMarginBasket := [True],
                                  spotOpenOrdersAccounts := [Some exOpenOrders]\<rparr>"

section \<open>Instruction layouts (src/layout.ts)\<close>

text \<open>
  The field layouts the instruction variants are built from, with what buffer-layout
  and the classes of layout.ts do on \<^verbatim>\<open>decode\<close>:
  \<^item> \<open>UInt n\<close> (\<^verbatim>\<open>u8\<close>, \<^verbatim>\<open>u16\<close>, \<^verbatim>\<open>u32\<close>): \<^verbatim>\<open>b.readUIntLE(offset, n)\<close>, which throws a
    RangeError when the \<open>n\<close> bytes are not all inside the buffer;
  \<^item> \<open>BNField n signed\<close> (\<^verbatim>\<open>u64\<close>, \<^verbatim>\<open>i64\<close>, \<^verbatim>\<open>u128\<close>, \<^verbatim>\<open>i128\<close>): a blob, that is a slice,
    read as a little-endian number, through \<^verbatim>\<open>fromTwos(8 * n)\<close> when signed;
  \<^item> \<open>FixedField\<close>: \<^verbatim>\<open>I80F48Layout\<close>;
  \<^item> \<open>BoolField\<close>: a \<^verbatim>\<open>u8\<close> that is true when not zero;
  \<^item> \<open>EnumField values n\<close>: a \<open>UInt n\<close> whose value must be one of \<open>values\<close>;
  \<^item> \<open>SeqU8 n\<close>: \<^verbatim>\<open>seq(u8(), n)\<close>, \<open>n\<close> single bytes read one after the other.
\<close>

datatype layoutField =
    UInt nat
  | BNField nat bool
  | FixedField
  | BoolField
  | EnumField "(string \<times> nat) list" nat
  | SeqU8 nat

datatype decoded =
    VNumber nat
  | VBN int
  | VFixed I80F48
  | VBool bool
  | VName string
  | VSeq "nat list"

definition INFO_LEN :: nat where "INFO_LEN = 32"

definition sideValues :: "(string \<times> nat) list" where
  "sideValues = [(''buy'', 0), (''sell'', 1)]"

definition orderTypeValues :: "(string \<times> nat) list" where
  "orderTypeValues =
     [(''limit'', 0), (''ioc'', 1), (''postOnly'', 2), (''market'', 3), (''postOnlySlide'', 4)]"

definition selfTradeBehaviorValues :: "(string \<times> nat) list" where
  "selfTradeBehaviorValues =
     [(''decrementTake'', 0), (''cancelProvide'', 1), (''abortTransaction'', 2)]"

definition triggerConditionValues :: "(string \<times> nat) list" where
  "triggerConditionValues = [(''above'', 0), (''below'', 1)]"

fun fieldSpan :: "layoutField \<Rightarrow> nat" where
  "fieldSpan (UInt n) = n"
| "fieldSpan (BNField n isSigned) = n"
| "fieldSpan FixedField = 16"
| "fieldSpan BoolField = 1"
| "fieldSpan (EnumField vals n) = n"
| "fieldSpan (SeqU8 n) = n"

definition readUIntLE :: "byte list \<Rightarrow> nat \<Rightarrow> nat \<Rightarrow> error + nat" where
  "readUIntLE b offset n =
     (if offset + n \<le> length b then Inr (nat (bn_of_le (take n (drop offset b))))
      else Inl OutOfBounds)"

text \<open>
  \<^verbatim>\<open>inotn(width)\<close> and \<^verbatim>\<open>fromTwos(width)\<close> of bn.js for any width: the low \<open>width\<close> bits
  are complemented, the rest of the last 26-bit word that \<open>width\<close> reaches into is
  cleared, the words above are kept.
\<close>

definition bn_inotn :: "nat \<Rightarrow> int \<Rightarrow> int" where
  "bn_inotn width m =
     (m div 2 ^ (26 * ((width + 25) div 26))) * 2 ^ (26 * ((width + 25) div 26)) +
     (2 ^ width - 1 - m mod 2 ^ width)"

definition bn_fromTwos :: "nat \<Rightarrow> int \<Rightarrow> int" where
  "bn_fromTwos width x =
     (if (\<bar>x\<bar> div 2 ^ (width - 1)) mod 2 = 1 then - (bn_inotn width \<bar>x\<bar> + 1) else x)"

text \<open>The name an \<^verbatim>\<open>EnumLayout\<close> finds for a decoded value: the first entry with that value.\<close>

fun enumName :: "(string \<times> nat) list \<Rightarrow> nat \<Rightarrow> error + string" where
  "enumName [] v = Inl InvalidEnum"
| "enumName ((name, value) # rest) v = (if value = v then Inr name else enumName rest v)"

fun seqU8_decode :: "nat \<Rightarrow> byte list \<Rightarrow> nat \<Rightarrow> error + nat list" where
  "seqU8_decode 0 b offset = Inr []"
| "seqU8_decode (Suc n) b offset =
     bindE (readUIntLE b offset 1) (\<lambda>x.
     bindE (seqU8_decode n b (offset + 1)) (\<lambda>xs. Inr (x # xs)))"

fun decodeField :: "layoutField \<Rightarrow> byte list \<Rightarrow> nat \<Rightarrow> error + decoded" where
  "decodeField (UInt n) b offset = bindE (readUIntLE b offset n) (\<lambda>v. Inr (VNumber v))"
| "decodeField (BNField n isSigned) b offset =
     (let result = bn_of_le (Blob_decode b offset n) in
      Inr (VBN (if isSigned then bn_fromTwos (8 * n) result else result)))"
| "decodeField FixedField b offset = bindE (I80F48Layout_decode b offset) (\<lambda>v. Inr (VFixed v))"
| "decodeField BoolField b offset = bindE (readUIntLE b offset 1) (\<lambda>v. Inr (VBool (v \<noteq> 0)))"
| "decodeField (EnumField vals n) b offset =
     bindE (readUIntLE b offset n) (\<lambda>v. bindE (enumName vals v) (\<lambda>name. Inr (VName name)))"
| "decodeField (SeqU8 n) b offset = bindE (seqU8_decode n b offset) (\<lambda>xs. Inr (VSeq xs))"

text \<open>
  \<^verbatim>\<open>Structure.decode\<close>: the fields are decoded in order, each at the offset the spans of
  its predecessors give; the structure itself does not compare the buffer's length
  with its span.
\<close>

fun structDecode ::
  "(string \<times> layoutField) list \<Rightarrow> byte list \<Rightarrow> nat \<Rightarrow> error + (string \<times> decoded) list" where
  "structDecode [] b offset = Inr []"
| "structDecode ((property, fd) # flds) b offset =
     bindE (decodeField fd b offset) (\<lambda>v.
     bindE (structDecode flds b (offset + fieldSpan fd)) (\<lambda>rest. Inr ((property, v) # rest)))"

definition structSpan :: "(string \<times> layoutField) list \<Rightarrow> nat" where
  "structSpan flds = sum_list (map (\<lambda>f. fieldSpan (snd f)) flds)"

text \<open>
  The registry \<^verbatim>\<open>LyraeInstructionLayout.addVariant\<close> builds: discriminant, variant name
  and the fields of the variant's structure. There is no variant 40.
\<close>

definition registry :: "(nat \<times> string \<times> (string \<times> layoutField) list) list" where
  "registry =
     [
      (0, (''InitLyraeGroup'', [(''signerNonce'', BNField 8 False), (''validInterval'',
        BNField 8 False), (''quoteOptimalUtil'', FixedField), (''quoteOptimalRate'',
        FixedField), (''quoteMaxRate'', FixedField)])),
      (1, (''InitLyraeAccount'', [])),
      (2, (''Deposit'', [(''quantity'', BNField 8 False)])),
      (3, (''Withdraw'', [(''quantity'', BNField 8 False), (''allowBorrow'', UInt 1)])),
      (4, (''AddSpotMarket'', [(''maintLeverage'', FixedField), (''initLeverage'',
        FixedField), (''liquidationFee'', FixedField), (''optimalUtil'', FixedField),
        (''optimalRate'', FixedField), (''maxRate'', FixedField)])),
      (5, (''AddToBasket'', [(''marketIndex'', BNField 8 False)])),
      (6, (''Borrow'', [(''quantity'', BNField 8 False)])),
      (7, (''CachePrices'', [])),
      (8, (''CacheRootBanks'', [])),
      (9, (''PlaceSpotOrder'', [(''side'', EnumField sideValues 4), (''limitPrice'', BNField
        8 False), (''maxBaseQuantity'', BNField 8 False), (''maxQuoteQuantity'', BNField 8
        False), (''selfTradeBehavior'', EnumField selfTradeBehaviorValues 4),
        (''orderType'', EnumField orderTypeValues 4), (''clientId'', BNField 8 False),
        (''limit'', UInt 2)])),
      (10, (''AddOracle'', [])),
      (11, (''AddPerpMarket'', [(''maintLeverage'', FixedField), (''initLeverage'',
        FixedField), (''liquidationFee'', FixedField), (''makerFee'', FixedField),
        (''takerFee'', FixedField), (''baseLotSize'', BNField 8 True), (''quoteLotSize'',
        BNField 8 True), (''rate'', FixedField), (''maxDepthBps'', FixedField),
        (''targetPeriodLength'', BNField 8 False), (''lyrPerPeriod'', BNField 8 False),
        (''exp'', UInt 1)])),
      (12, (''PlacePerpOrder'', [(''price'', BNField 8 True), (''quantity'', BNField 8
        True), (''clientOrderId'', BNField 8 False), (''side'', EnumField sideValues 1),
        (''orderType'', EnumField orderTypeValues 1), (''reduceOnly'', BoolField)])),
      (13, (''CancelPerpOrderByClientId'', [(''clientOrderId'', BNField 8 False),
        (''invalidIdOk'', BoolField)])),
      (14, (''CancelPerpOrder'', [(''orderId'', BNField 16 True), (''invalidIdOk'',
        BoolField)])),
      (15, (''ConsumeEvents'', [(''limit'', BNField 8 False)])),
      (16, (''CachePerpMarkets'', [])),
      (17, (''UpdateFunding'', [])),
      (18, (''SetOracle'', [(''price'', FixedField)])),
      (19, (''SettleFunds'', [])),
      (20, (''CancelSpotOrder'', [(''side'', EnumField sideValues 4), (''orderId'', BNField
        16 False)])),
      (21, (''UpdateRootBank'', [])),
      (22, (''SettlePnl'', [(''marketIndex'', BNField 8 False)])),
      (23, (''SettleBorrow'', [(''tokenIndex'', BNField 8 False), (''quantity'', BNField 8
        False)])),
      (24, (''ForceCancelSpotOrders'', [(''limit'', UInt 1)])),
      (25, (''ForceCancelPerpOrders'', [(''limit'', UInt 1)])),
      (26, (''LiquidateTokenAndToken'', [(''maxLiabTransfer'', FixedField)])),
      (27, (''LiquidateTokenAndPerp'', [(''assetType'', UInt 1), (''assetIndex'', BNField 8
        False), (''liabType'', UInt 1), (''liabIndex'', BNField 8 False),
        (''maxLiabTransfer'', FixedField)])),
      (28, (''LiquidatePerpMarket'', [(''baseTransferRequest'', BNField 8 True)])),
      (29, (''SettleFees'', [])),
      (30, (''ResolvePerpBankruptcy'', [(''liabIndex'', BNField 8 False),
        (''maxLiabTransfer'', FixedField)])),
      (31, (''ResolveTokenBankruptcy'', [(''maxLiabTransfer'', FixedField)])),
      (32, (''InitSpotOpenOrders'', [])),
      (33, (''RedeemLyr'', [])),
      (34, (''AddLyraeAccountInfo'', [(''info'', SeqU8 INFO_LEN)])),
      (35, (''DepositMsrm'', [(''quantity'', BNField 8 False)])),
      (36, (''WithdrawMsrm'', [(''quantity'', BNField 8 False)])),
      (37, (''ChangePerpMarketParams'', [(''maintLeverageOption'', BoolField),
        (''maintLeverage'', FixedField), (''initLeverageOption'', BoolField),
        (''initLeverage'', FixedField), (''liquidationFeeOption'', BoolField),
        (''liquidationFee'', FixedField), (''makerFeeOption'', BoolField), (''makerFee'',
        FixedField), (''takerFeeOption'', BoolField), (''takerFee'', FixedField),
        (''rateOption'', BoolField), (''rate'', FixedField), (''maxDepthBpsOption'',
        BoolField), (''maxDepthBps'', FixedField), (''targetPeriodLengthOption'',
        BoolField), (''targetPeriodLength'', BNField 8 False), (''lyrPerPeriodOption'',
        BoolField), (''lyrPerPeriod'', BNField 8 False), (''expOption'', BoolField),
        (''exp'', UInt 1)])),
      (38, (''SetGroupAdmin'', [])),
      (39, (''CancelAllPerpOrders'', [(''limit'', UInt 1)])),
      (41, (''PlaceSpotOrder2'', [(''side'', EnumField sideValues 4), (''limitPrice'',
        BNField 8 False), (''maxBaseQuantity'', BNField 8 False), (''maxQuoteQuantity'',
        BNField 8 False), (''selfTradeBehavior'', EnumField selfTradeBehaviorValues 4),
        (''orderType'', EnumField orderTypeValues 4), (''clientOrderId'', BNField 8 False),
        (''limit'', UInt 2)])),
      (42, (''InitAdvancedOrders'', [])),
      (43, (''AddPerpTriggerOrder'', [(''orderType'', EnumField orderTypeValues 1),
        (''side'', EnumField sideValues 1), (''triggerCondition'', EnumField
        triggerConditionValues 1), (''reduceOnly'', BoolField), (''clientOrderId'', BNField
        8 False), (''price'', BNField 8 True), (''quantity'', BNField 8 True),
        (''triggerPrice'', FixedField)])),
      (44, (''RemoveAdvancedOrder'', [(''orderIndex'', UInt 1)])),
      (45, (''ExecutePerpTriggerOrder'', [(''orderIndex'', UInt 1)])),
      (46, (''CreatePerpMarket'', [(''maintLeverage'', FixedField), (''initLeverage'',
        FixedField), (''liquidationFee'', FixedField), (''makerFee'', FixedField),
        (''takerFee'', FixedField), (''baseLotSize'', BNField 8 True), (''quoteLotSize'',
        BNField 8 True), (''rate'', FixedField), (''maxDepthBps'', FixedField),
        (''targetPeriodLength'', BNField 8 False), (''lyrPerPeriod'', BNField 8 False),
        (''exp'', UInt 1), (''version'', UInt 1), (''lmSizeShift'', UInt 1),
        (''baseDecimals'', UInt 1)])),
      (47, (''ChangePerpMarketParams2'', [(''maintLeverageOption'', BoolField),
        (''maintLeverage'', FixedField), (''initLeverageOption'', BoolField),
        (''initLeverage'', FixedField), (''liquidationFeeOption'', BoolField),
        (''liquidationFee'', FixedField), (''makerFeeOption'', BoolField), (''makerFee'',
        FixedField), (''takerFeeOption'', BoolField), (''takerFee'', FixedField),
        (''rateOption'', BoolField), (''rate'', FixedField), (''maxDepthBpsOption'',
        BoolField), (''maxDepthBps'', FixedField), (''targetPeriodLengthOption'',
        BoolField), (''targetPeriodLength'', BNField 8 False), (''lyrPerPeriodOption'',
        BoolField), (''lyrPerPeriod'', BNField 8 False), (''expOption'', BoolField),
        (''exp'', UInt 1), (''versionOption'', BoolField), (''version'', UInt 1),
        (''lmSizeShiftOption'', BoolField), (''lmSizeShift'', UInt 1)])),
      (48, (''UpdateMarginBasket'', [])),
      (49, (''ChangeMaxLyraeAccounts'', [(''maxLyraeAccounts'', UInt 4)])),
      (50, (''CloseLyraeAccount'', [])),
      (51, (''CloseSpotOpenOrders'', [])),
      (52, (''CloseAdvancedOrders'', [])),
      (53, (''CreateDustAccount'', [])),
      (54, (''ResolveDust'', [])),
      (55, (''CreateAccount'', [(''accountNum'', BNField 8 False)])),
      (56, (''UpgradeLyraeAccountV0V1'', [])),
      (57, (''CancelPerpOrdersSide'', [(''side'', EnumField sideValues 1), (''limit'', UInt
        1)])),
      (58, (''SetDelegate'', [])),
      (59, (''ChangeSpotMarketParams'', [(''maintLeverageOption'', BoolField),
        (''maintLeverage'', FixedField), (''initLeverageOption'', BoolField),
        (''initLeverage'', FixedField), (''liquidationFeeOption'', BoolField),
        (''liquidationFee'', FixedField), (''optimalUtilOption'', BoolField),
        (''optimalUtil'', FixedField), (''optimalRateOption'', BoolField), (''optimalRate'',
        FixedField), (''maxRateOption'', BoolField), (''maxRate'', FixedField),
        (''versionOption'', BoolField), (''version'', UInt 1)])),
      (60, (''CreateSpotOpenOrders'', []))
     ]"

text \<open>
  \<^verbatim>\<open>Union.decode\<close> of buffer-layout for this union: the discriminator is a \<^verbatim>\<open>u32\<close> in front
  of the variant's structure; there is no default layout, so an unregistered
  discriminant ends in a TypeError. The decoded value is the variant's name with its
  decoded fields.
\<close>

definition Union_decode :: "byte list \<Rightarrow> nat \<Rightarrow> error + string \<times> (string \<times> decoded) list" where
  "Union_decode b offset =
     bindE (readUIntLE b offset 4) (\<lambda>discr.
       case map_of registry discr of
         None \<Rightarrow> Inl TypeError
       | Some (name, flds) \<Rightarrow>
           bindE (structDecode flds b (offset + 4)) (\<lambda>v. Inr (name, v)))"

text \<open>\<^verbatim>\<open>LyraeInstructionsUnion.decode\<close>: the legacy lengths are padded before the decode.\<close>

definition LyraeInstructionsUnion_decode ::
  "byte list \<Rightarrow> nat \<Rightarrow> error + string \<times> (string \<times> decoded) list" where
  "LyraeInstructionsUnion_decode b offset =
     bindE (readUIntLE b offset 4) (\<lambda>discr.
       let b' = (if (discr = 11 \<and> length b = 144) \<or> (discr = 12 \<and> length b = 30)
                   then b @ [0]
                 else if discr = 37 \<and> length b = 141 then b @ [0, 0]
                 else b)
       in Union_decode b' offset)"

text \<open>The span of a registered variant with its discriminator: the current variant length.\<close>

definition variantLength :: "nat \<Rightarrow> nat option" where
  "variantLength discr = map_option (\<lambda>v. 4 + structSpan (snd v)) (map_of registry discr)"

text \<open>The four bytes of a discriminant, and an all-zero instruction body.\<close>

definition discrBytes :: "nat \<Rightarrow> byte list" where
  "discrBytes d = le_bytes 4 (int d)"

section \<open>Properties of the fixed-point type\<close>

lemma MAX_BN_val: "MAX_BN = 2 ^ 127 - 1"
  by (simp add: MAX_BN_def MAX_SIZE_def)

lemma MIN_BN_val: "MIN_BN = - (2 ^ 127)"
  by (simp add: MIN_BN_def MAX_SIZE_def)

text \<open>
  Claim C7. The constructor succeeds for exactly the integers of the interval
  from \<open>-2^127\<close> to \<open>2^127 - 1\<close>, and throws its range error for every other integer.
\<close>

theorem constructor_range:
  "new_I80F48 d =
     (if - (2 ^ 127) \<le> d \<and> d \<le> 2 ^ 127 - 1 then Inr (I80F48 d) else Inl NumberOutOfRange)"
  by (auto simp: new_I80F48_def MAX_BN_val MIN_BN_val)

lemma bn_ushrn_trunc48: "bn_ushrn p 48 = trunc48 p"
proof (cases "0 \<le> p")
  case True
  then show ?thesis by (cases "p = 0") (simp_all add: bn_ushrn_def trunc48_def)
next
  case False
  then have p: "p < 0" by simp
  have "(- p) div 2 ^ 48 = (if p mod 2 ^ 48 = 0 then - (p div 2 ^ 48) else - (p div 2 ^ 48) - 1)"
    by (rule zdiv_zminus1_eq_if) simp
  then show ?thesis using p
    by (auto simp: bn_ushrn_def trunc48_def dvd_eq_mod_eq_0)
qed

text \<open>
  Claim C1, as amended. \<^verbatim>\<open>mul\<close> shifts the magnitude of the exact product right by 48
  bits and keeps the sign, so it truncates toward zero: whenever the truncated
  product is representable, \<open>mul x y\<close> is that value. It is the floor of the exact
  product when the product is non-negative or a multiple of \<open>2^48\<close>, and the floor plus
  one (the representable value just above the exact product) otherwise.
\<close>

theorem mul_truncates_toward_zero:
  assumes "representable (trunc48 (getData x * getData y))"
  shows "mul x y = Inr (I80F48 (trunc48 (getData x * getData y)))"
  using assms
  by (simp add: mul_def FRACTIONS_def bn_ushrn_trunc48 new_I80F48_def representable_def)

theorem mul_truncates_toward_zero_witness:
  "representable (trunc48 (getData (I80F48 (- 3)) * getData (I80F48 (2 ^ 47)))) \<and>
   mul (I80F48 (- 3)) (I80F48 (2 ^ 47)) = Inr (I80F48 (- 1)) \<and>
   (- 3 * 2 ^ 47) div 2 ^ 48 = (- 2 :: int)"
proof -
  have r: "representable (trunc48 (getData (I80F48 (- 3)) * getData (I80F48 (2 ^ 47))))"
    by (simp add: trunc48_def representable_def MIN_BN_val MAX_BN_val)
  show ?thesis using r mul_truncates_toward_zero [OF r] by (simp add: trunc48_def)
qed

text \<open>
  The claim as the specification words it (a shift that truncates toward minus
  infinity) fails: the raw values \<open>-1\<close> and \<open>1\<close> are representable, the floor of their
  shifted product is the representable \<open>-1\<close>, and \<^verbatim>\<open>mul\<close> returns \<open>0\<close>.
\<close>

theorem mul_floor_counterexample:
  "representable (- 1) \<and> representable 1 \<and> representable ((- 1 * 1) div 2 ^ 48) \<and>
   mul (I80F48 (- 1)) (I80F48 1) = Inr (I80F48 0) \<and>
   mul (I80F48 (- 1)) (I80F48 1) \<noteq> Inr (I80F48 ((- 1 * 1) div 2 ^ 48))"
  by (simp add: representable_def MIN_BN_val MAX_BN_val mul_def bn_ushrn_def new_I80F48_def
      FRACTIONS_def)

subsection \<open>Byte encoding\<close>

lemma length_le_bytes: "length (le_bytes n m) = n"
  by (induction n arbitrary: m) auto

lemma bn_of_le_le_bytes: "0 \<le> m \<Longrightarrow> bn_of_le (le_bytes n m) = m mod 256 ^ n"
proof (induction n arbitrary: m)
  case 0
  then show ?case by simp
next
  case (Suc n)
  have u: "uint (word_of_int (m mod 256) :: byte) = m mod 256"
    by (simp add: uint_word_of_int take_bit_eq_mod)
  have "0 \<le> m div 256" using Suc.prems by simp
  then have ih: "bn_of_le (le_bytes n (m div 256)) = (m div 256) mod 256 ^ n"
    by (rule Suc.IH)
  have "m mod (256 * 256 ^ n) = 256 * (m div 256 mod 256 ^ n) + m mod 256"
    by (rule zmod_zmult2_eq) simp
  then show ?case
    using u ih by simp
qed

lemma toTwos_range:
  assumes "representable x"
  shows "0 \<le> bn_toTwos128 x \<and> bn_toTwos128 x < 2 ^ 128 \<and> bn_fromTwos128 (bn_toTwos128 x) = x"
proof (cases "x < 0")
  case False
  then have x: "0 \<le> x" "x < 2 ^ 127"
    using assms by (auto simp: representable_def MAX_BN_val)
  then have "x div 2 ^ 127 = 0" by simp
  then show ?thesis using x False by (simp add: bn_toTwos128_def bn_fromTwos128_def)
next
  case True
  then have x: "x < 0" "- (2 ^ 127) \<le> x"
    using assms by (auto simp: representable_def MIN_BN_val)
  have a: "\<bar>x\<bar> div 2 ^ 130 = 0" "\<bar>x\<bar> mod 2 ^ 128 = \<bar>x\<bar>" using x by auto
  have t: "bn_toTwos128 x = 2 ^ 128 + x"
    using x a by (simp add: bn_toTwos128_def bn_inotn128_def)
  define t where "t = 2 ^ 128 + x"
  have tr: "2 ^ 127 \<le> t" "t < 2 ^ 128" using x by (auto simp: t_def)
  have "t div 2 ^ 127 = 1"
    using tr by (intro int_div_pos_eq[where r = "t - 2^127"]) auto
  moreover have "t div 2 ^ 130 = 0" "t mod 2 ^ 128 = t" using tr by auto
  ultimately have "bn_fromTwos128 t = x"
    using tr by (simp add: bn_fromTwos128_def bn_inotn128_def t_def)
  then show ?thesis using t tr by (simp add: t_def)
qed

lemma twos_bytes:
  assumes "representable x"
  shows "bn_toArray_le (bn_toTwos128 x) 16 = Inr (le_bytes 16 (bn_toTwos128 x))"
    and "bn_of_le (le_bytes 16 (bn_toTwos128 x)) = bn_toTwos128 x"
  using toTwos_range[OF assms] by (simp_all add: bn_toArray_le_def bn_of_le_le_bytes)

text \<open>
  Claim C6. For every representable value \<open>x\<close>, \<^verbatim>\<open>fromArray(x.toArray())\<close> succeeds and
  gives back a value with the same data; and writing \<open>x\<close> with the layout's \<^verbatim>\<open>encode\<close>
  at any offset that leaves room for 16 bytes, then reading it with \<^verbatim>\<open>decode\<close> at
  that offset, gives \<open>x\<close> again.
\<close>

theorem I80F48_bytes_roundtrip:
  assumes "representable (getData x)"
  shows "bindE (toArray x) fromArray = Inr x \<and>
    (offset + 16 \<le> length b \<longrightarrow>
       bindE (I80F48Layout_encode x b offset) (\<lambda>(n, b'). I80F48Layout_decode b' offset) = Inr x)"
  using twos_bytes[OF assms] toTwos_range[OF assms] assms
  by (cases x)
     (simp add: bindE_def toArray_def fromArray_def I80F48Layout_encode_def
        I80F48Layout_decode_def Blob_encode_def Blob_decode_def length_le_bytes
        new_I80F48_def representable_def)

theorem I80F48_bytes_roundtrip_witness:
  "representable (getData (I80F48 (- (2 ^ 127)))) \<and>
   bindE (toArray (I80F48 (- (2 ^ 127)))) fromArray = Inr (I80F48 (- (2 ^ 127))) \<and>
   bindE (I80F48Layout_encode (I80F48 (- (2 ^ 127))) (replicate 20 0) 3)
     (\<lambda>(n, b'). I80F48Layout_decode b' 3) = Inr (I80F48 (- (2 ^ 127)))"
proof -
  have r: "representable (getData (I80F48 (- (2 ^ 127))))"
    by (simp add: representable_def MIN_BN_val MAX_BN_val)
  show ?thesis
    using r I80F48_bytes_roundtrip [OF r, of 3 "replicate 20 0"] by simp
qed

section \<open>Properties of the health engine\<close>

lemma bindE_Inr_iff: "bindE m f = Inr r \<longleftrightarrow> (\<exists>v. m = Inr v \<and> f v = Inr r)"
  by (cases m) (simp_all add: bindE_def)

lemma bindE_Inr [simp]: "bindE (Inr v) f = f v"
  by (simp add: bindE_def)

lemma bindE_Inl [simp]: "bindE (Inl e) f = Inl e"
  by (simp add: bindE_def)

lemma new_I80F48_eq:
  "new_I80F48 d = (if representable d then Inr (I80F48 d) else Inl NumberOutOfRange)"
  by (auto simp: new_I80F48_def representable_def)

lemma bn_ushln_eq: "bn_ushln x k = x * 2 ^ k"
  by (cases "x < 0") (auto simp: bn_ushln_def sgn_if)

lemma trunc48_shift: "trunc48 (x * 2 ^ 48) = x"
  by (simp add: trunc48_def)

lemma trunc48_mult: "trunc48 (x * (k * 2 ^ 48)) = x * k"
proof -
  have "x * (k * 2 ^ 48) = (x * k) * 2 ^ 48" by simp
  then show ?thesis using trunc48_shift[of "x * k"] by (simp only:)
qed

lemma mul_eq:
  "mul a x = (if representable (trunc48 (getData a * getData x)) then
      Inr (I80F48 (trunc48 (getData a * getData x))) else Inl NumberOutOfRange)"
  by (simp add: mul_def FRACTIONS_def bn_ushrn_trunc48 new_I80F48_eq)

lemma div_eq:
  "div_I80F48 a x = (if getData x = 0 then Inl AssertionFailed
    else if representable (tdiv (getData a * 2 ^ 48) (getData x)) then
      Inr (I80F48 (tdiv (getData a * 2 ^ 48) (getData x))) else Inl NumberOutOfRange)"
  by (simp add: div_I80F48_def FRACTIONS_def bn_div_def bn_ushln_eq tdiv_def new_I80F48_eq)

lemma sub_eq:
  "sub a x = (if representable (getData a - getData x) then
      Inr (I80F48 (getData a - getData x)) else Inl NumberOutOfRange)"
  by (simp add: sub_def new_I80F48_eq)

lemma add_eq:
  "add a x = (if representable (getData a + getData x) then
      Inr (I80F48 (getData a + getData x)) else Inl NumberOutOfRange)"
  by (simp add: add_def new_I80F48_eq)

lemma fromNumber_100_eq: "fromNumber_100 = Inr (I80F48 (100 * 2 ^ 48))"
  by (simp add: fromNumber_100_def bn_ushln_eq new_I80F48_eq representable_def
      MIN_BN_val MAX_BN_val)

lemma mul_hundred: "mul s (I80F48 (100 * 2 ^ 48)) = new_I80F48 (100 * getData s)"
  unfolding mul_def FRACTIONS_def bn_ushrn_trunc48 I80F48.sel trunc48_mult
  by (simp only: mult.commute)

subsection \<open>Health ratio\<close>

lemma ratio_formula:
  "bindE (div_I80F48 assets liabs)
     (\<lambda>d. bindE (sub d ONE_I80F48) (\<lambda>s. bindE fromNumber_100 (\<lambda>h. mul s h))) =
     (if getData liabs = 0 then Inl AssertionFailed
      else if representable (tdiv (getData assets * 2 ^ 48) (getData liabs)) \<and>
              representable (tdiv (getData assets * 2 ^ 48) (getData liabs) - 2 ^ 48) \<and>
              representable (100 * (tdiv (getData assets * 2 ^ 48) (getData liabs) - 2 ^ 48))
        then Inr (I80F48 (100 * (tdiv (getData assets * 2 ^ 48) (getData liabs) - 2 ^ 48)))
        else Inl NumberOutOfRange)"
proof -
  define q where "q = tdiv (getData assets * 2 ^ 48) (getData liabs)"
  define s where "s = q - 2 ^ 48"
  have d: "div_I80F48 assets liabs = (if getData liabs = 0 then Inl AssertionFailed
      else if representable q then Inr (I80F48 q) else Inl NumberOutOfRange)"
    unfolding q_def by (rule div_eq)
  have s: "sub (I80F48 q) ONE_I80F48 =
      (if representable s then Inr (I80F48 s) else Inl NumberOutOfRange)"
    unfolding s_def by (simp add: sub_eq ONE_I80F48_def)
  have m: "bindE fromNumber_100 (\<lambda>h. mul (I80F48 s) h) =
      (if representable (100 * s) then Inr (I80F48 (100 * s)) else Inl NumberOutOfRange)"
    unfolding fromNumber_100_eq bindE_Inr mul_hundred new_I80F48_eq by simp
  show ?thesis
    unfolding q_def[symmetric] s_def[symmetric] d
    by (simp add: s m)
qed

text \<open>
  Claim C4, as amended. Given the components and the weighted assets \<open>A\<close> and
  liabilities \<open>L\<close> computed from them, the health ratio is 100 whenever \<open>L\<close> is zero or
  negative (the code tests \<open>L > 0\<close>); otherwise it is \<open>100 * (A / L - 1)\<close> in fixed
  point, the quotient truncated toward zero to 48 fractional bits, when the quotient,
  the difference and the product are representable, and the range error when one of
  them is not.
\<close>

theorem health_ratio:
  assumes "getHealthComponents gqp g c a = Inr hc"
    and "getWeightedAssetsLiabsVals g c (hc_spot hc) (hc_perps hc) (hc_quote hc) ht =
           Inr (assets, liabs)"
  shows "getHealthRatio gqp g c a ht =
     (if getData liabs \<le> 0 then Inr (I80F48 (100 * 2 ^ 48))
      else if representable (tdiv (getData assets * 2 ^ 48) (getData liabs)) \<and>
              representable (tdiv (getData assets * 2 ^ 48) (getData liabs) - 2 ^ 48) \<and>
              representable (100 * (tdiv (getData assets * 2 ^ 48) (getData liabs) - 2 ^ 48))
        then Inr (I80F48 (100 * (tdiv (getData assets * 2 ^ 48) (getData liabs) - 2 ^ 48)))
        else Inl NumberOutOfRange)"
proof (cases "getData liabs \<le> 0")
  case True
  then show ?thesis using assms
    by (simp add: getHealthRatio_def gt_def ZERO_I80F48_def fromNumber_100_eq)
next
  case False
  then have "getHealthRatio gqp g c a ht =
     bindE (div_I80F48 assets liabs)
       (\<lambda>d. bindE (sub d ONE_I80F48) (\<lambda>s. bindE fromNumber_100 (\<lambda>h. mul s h)))"
    using assms by (simp add: getHealthRatio_def gt_def ZERO_I80F48_def)
  then show ?thesis using False by (simp only: ratio_formula) simp
qed

theorem health_ratio_witness:
  "getHealthComponents noFunding exGroup (exCache (I80F48 (2 ^ 48)))
      (exAccount (I80F48 0) (I80F48 (2 * 2 ^ 48)) (I80F48 (2 ^ 48))) =
     Inr \<lparr>hc_spot = [I80F48 (- (2 * 2 ^ 48))], hc_perps = [I80F48 0], hc_quote = I80F48 (2 ^ 48)\<rparr> \<and>
   getWeightedAssetsLiabsVals exGroup (exCache (I80F48 (2 ^ 48)))
      [I80F48 (- (2 * 2 ^ 48))] [I80F48 0] (I80F48 (2 ^ 48)) (Some Maint) =
     Inr (I80F48 (2 ^ 48), I80F48 (5 * 2 ^ 47)) \<and>
   getHealthRatio noFunding exGroup (exCache (I80F48 (2 ^ 48)))
      (exAccount (I80F48 0) (I80F48 (2 * 2 ^ 48)) (I80F48 (2 ^ 48))) (Some Maint) =
     Inr (I80F48 (- 16888498602639400)) \<and>
   getData (I80F48 (- 16888498602639400)) < 0"
proof -
  let ?hc = "\<lparr>hc_spot = [I80F48 (- (2 * 2 ^ 48))], hc_perps = [I80F48 0],
              hc_quote = I80F48 (2 ^ 48)\<rparr>"
  have h1: "getHealthComponents noFunding exGroup (exCache (I80F48 (2 ^ 48)))
      (exAccount (I80F48 0) (I80F48 (2 * 2 ^ 48)) (I80F48 (2 ^ 48))) = Inr ?hc"
    by code_simp
  have h2: "getWeightedAssetsLiabsVals exGroup (exCache (I80F48 (2 ^ 48)))
      (hc_spot ?hc) (hc_perps ?hc) (hc_quote ?hc) (Some Maint) =
     Inr (I80F48 (2 ^ 48), I80F48 (5 * 2 ^ 47))"
    by code_simp
  show ?thesis
    using h1 h2 health_ratio [OF h1 h2]
    by (simp add: tdiv_def representable_def MIN_BN_val MAX_BN_val)
qed

text \<open>
  The claim as the specification words it (100 when the liabilities are zero, the
  formula otherwise) fails where the weighted liabilities are negative. With a
  negative cached price the borrow of two units is weighted to liabilities of
  \<open>-5/2\<close>, not zero; the code returns 100, and the formula would give \<open>-100\<close>.
\<close>

theorem health_ratio_counterexample:
  "getHealthComponents noFunding exGroup (exCache (I80F48 (- (2 ^ 48))))
      (exAccount (I80F48 0) (I80F48 (2 * 2 ^ 48)) (I80F48 0)) =
     Inr \<lparr>hc_spot = [I80F48 (- (2 * 2 ^ 48))], hc_perps = [I80F48 0], hc_quote = I80F48 0\<rparr> \<and>
   getWeightedAssetsLiabsVals exGroup (exCache (I80F48 (- (2 ^ 48))))
      [I80F48 (- (2 * 2 ^ 48))] [I80F48 0] (I80F48 0) (Some Maint) =
     Inr (I80F48 0, I80F48 (- (5 * 2 ^ 47))) \<and>
   getData (I80F48 (- (5 * 2 ^ 47))) \<noteq> 0 \<and>
   getHealthRatio noFunding exGroup (exCache (I80F48 (- (2 ^ 48))))
      (exAccount (I80F48 0) (I80F48 (2 * 2 ^ 48)) (I80F48 0)) (Some Maint) =
     Inr (I80F48 (100 * 2 ^ 48)) \<and>
   100 * (tdiv (0 * 2 ^ 48) (- (5 * 2 ^ 47)) - 2 ^ 48) = - (100 * 2 ^ 48) \<and>
   getHealthRatio noFunding exGroup (exCache (I80F48 (- (2 ^ 48))))
      (exAccount (I80F48 0) (I80F48 (2 * 2 ^ 48)) (I80F48 0)) (Some Maint) \<noteq>
     Inr (I80F48 (100 * (tdiv (0 * 2 ^ 48) (- (5 * 2 ^ 47)) - 2 ^ 48)))"
proof -
  have h1: "getHealthComponents noFunding exGroup (exCache (I80F48 (- (2 ^ 48))))
      (exAccount (I80F48 0) (I80F48 (2 * 2 ^ 48)) (I80F48 0)) =
     Inr \<lparr>hc_spot = [I80F48 (- (2 * 2 ^ 48))], hc_perps = [I80F48 0], hc_quote = I80F48 0\<rparr>"
    by code_simp
  have h2: "getWeightedAssetsLiabsVals exGroup (exCache (I80F48 (- (2 ^ 48))))
      [I80F48 (- (2 * 2 ^ 48))] [I80F48 0] (I80F48 0) (Some Maint) =
     Inr (I80F48 0, I80F48 (- (5 * 2 ^ 47)))"
    by code_simp
  have h3: "getHealthRatio noFunding exGroup (exCache (I80F48 (- (2 ^ 48))))
      (exAccount (I80F48 0) (I80F48 (2 * 2 ^ 48)) (I80F48 0)) (Some Maint) =
     Inr (I80F48 (100 * 2 ^ 48))"
    by code_simp
  have h4: "100 * (tdiv (0 * 2 ^ 48) (- (5 * 2 ^ 47)) - 2 ^ 48) = - (100 * 2 ^ 48)"
    by (simp add: tdiv_def)
  show ?thesis
    unfolding h3 h4 using h1 h2 by simp
qed

subsection \<open>Margin available in a market\<close>

text \<open>
  Claim C10. Given the Initial health, \<^verbatim>\<open>getMarketMarginAvailable\<close> returns zero when
  the health is at most zero (before any weight is read); otherwise it reads the
  Init weights of the market (a TypeError when the group has no spot or no perp entry
  at the index), returns the health itself when the requested asset weight is at
  least one, and only for a weight below one divides the health by one minus the
  weight (both positive, so the quotient is the floor), with the range error when
  the difference or the quotient is not representable.
\<close>

theorem market_margin_available:
  assumes "getHealth gqp g c a (Some Init) = Inr health"
  shows "getMarketMarginAvailable gqp g c a marketIndex marketType =
     (if getData health \<le> 0 then Inr ZERO_I80F48
      else
        case (at (spotMarkets g) marketIndex, at (perpMarkets g) marketIndex) of
          (Some sm, Some pm) \<Rightarrow>
            (let weight = getData (case marketType of SpotMarket \<Rightarrow> sm_initAssetWeight sm
                                   | PerpMarket \<Rightarrow> pm_initAssetWeight pm) in
             if 2 ^ 48 \<le> weight then Inr health
             else if representable (2 ^ 48 - weight) \<and>
                     representable ((getData health * 2 ^ 48) div (2 ^ 48 - weight))
               then Inr (I80F48 ((getData health * 2 ^ 48) div (2 ^ 48 - weight)))
               else Inl NumberOutOfRange)
        | _ \<Rightarrow> Inl TypeError)"
proof (cases "getData health \<le> 0")
  case True
  then show ?thesis using assms
    by (simp add: getMarketMarginAvailable_def lte_def ZERO_I80F48_def)
next
  case False
  have q: "tdiv (getData health * n) d = (getData health * n) div d" if "0 < d" "0 < n" for d n
    using that False by (simp add: tdiv_def sgn_if zero_less_mult_iff)
  show ?thesis
    using assms False
    by (cases marketType)
       (auto simp: getMarketMarginAvailable_def lte_def gte_def ZERO_I80F48_def ONE_I80F48_def
          getWeights_def atE_def sub_eq div_eq q Let_def split: option.splits)
qed

theorem market_margin_available_witness:
  "getHealth noFunding exGroup (exCache (I80F48 (2 ^ 48)))
      (exAccount (I80F48 (4 * 2 ^ 48)) (I80F48 0) (I80F48 0)) (Some Init) = Inr (I80F48 (2 * 2 ^ 48)) \<and>
   getMarketMarginAvailable noFunding exGroup (exCache (I80F48 (2 ^ 48)))
      (exAccount (I80F48 (4 * 2 ^ 48)) (I80F48 0) (I80F48 0)) 0 SpotMarket = Inr (I80F48 (4 * 2 ^ 48)) \<and>
   getMarketMarginAvailable noFunding exGroup (exCache (I80F48 (2 ^ 48)))
      (exAccount (I80F48 (4 * 2 ^ 48)) (I80F48 0) (I80F48 0)) 0 PerpMarket = Inr (I80F48 (2 * 2 ^ 48))"
proof -
  have h: "getHealth noFunding exGroup (exCache (I80F48 (2 ^ 48)))
      (exAccount (I80F48 (4 * 2 ^ 48)) (I80F48 0) (I80F48 0)) (Some Init) = Inr (I80F48 (2 * 2 ^ 48))"
    by code_simp
  show ?thesis
    using h market_margin_available [OF h, of 0 SpotMarket]
      market_margin_available [OF h, of 0 PerpMarket]
    by (simp add: exGroup_def at_def representable_def MIN_BN_val MAX_BN_val)
qed

subsection \<open>Price lookups\<close>

text \<open>
  Claim C8. The cache's price lookup at the quote index (the last token slot, 15)
  is exactly one whatever the cache holds, and so is the group's; at any other index
  the cache's lookup returns the cached price of that index (a TypeError outside the
  price cache), and the group's lookup depends on the cache only through that entry's
  price.
\<close>

theorem getPrice_quote_and_cached:
  "QUOTE_INDEX = 15 \<and> getData ONE_I80F48 = 2 ^ 48 \<and>
   LyraeCache_getPrice c QUOTE_INDEX = Inr ONE_I80F48 \<and>
   LyraeGroup_getPrice scale g QUOTE_INDEX c = Inr ONE_I80F48 \<and>
   (tokenIndex \<noteq> QUOTE_INDEX \<longrightarrow>
      LyraeCache_getPrice c tokenIndex =
        (if tokenIndex < length (priceCache c) then Inr (price (priceCache c ! tokenIndex))
         else Inl TypeError) \<and>
      LyraeGroup_getPrice scale g tokenIndex c =
        bindE (getTokenDecimals g tokenIndex) (\<lambda>d.
        bindE (getTokenDecimals g QUOTE_INDEX) (\<lambda>dq.
          scale (if tokenIndex < length (priceCache c)
                 then Some (price (priceCache c ! tokenIndex)) else None) (int d - int dq))))"
  by (simp add: LyraeCache_getPrice_def LyraeGroup_getPrice_def QUOTE_INDEX_def MAX_TOKENS_def
      ONE_I80F48_def atE_def at_def)

theorem getPrice_quote_and_cached_witness:
  "(0::nat) \<noteq> QUOTE_INDEX \<and>
   LyraeCache_getPrice (exCache (I80F48 7)) 0 = Inr (I80F48 7) \<and>
   LyraeCache_getPrice (exCache (I80F48 7)) QUOTE_INDEX = Inr (I80F48 (2 ^ 48)) \<and>
   LyraeCache_getPrice (exCache (I80F48 7)) 1 = Inl TypeError"
proof -
  have a: "priceCache (exCache (I80F48 7)) = [\<lparr>price = I80F48 7, pc_lastUpdate = 0\<rparr>]"
    by (simp add: exCache_def)
  have q: "(0::nat) \<noteq> QUOTE_INDEX" "(1::nat) \<noteq> QUOTE_INDEX"
    by (simp_all add: QUOTE_INDEX_def MAX_TOKENS_def)
  from getPrice_quote_and_cached [of "exCache (I80F48 7)" "\<lambda>p e. Inl TypeError" exGroup 0]
  have b: "LyraeCache_getPrice (exCache (I80F48 7)) QUOTE_INDEX = Inr ONE_I80F48"
    "LyraeCache_getPrice (exCache (I80F48 7)) 0 = Inr (I80F48 7)"
    using q by (simp_all add: a)
  from getPrice_quote_and_cached [of "exCache (I80F48 7)" "\<lambda>p e. Inl TypeError" exGroup 1]
  have c: "LyraeCache_getPrice (exCache (I80F48 7)) 1 = Inl TypeError"
    using q by (simp add: a)
  show ?thesis using q b c by (simp add: ONE_I80F48_def)
qed

subsection \<open>The two healths of \<^verbatim>\<open>getHealthsFromComponents\<close>\<close>

lemma atE_Inr_iff: "atE xs i = Inr v \<longleftrightarrow> at xs i = Some v"
  by (simp add: atE_def split: option.splits)


lemma mul_Inr: "mul a x = Inr r \<Longrightarrow> getData r = trunc48 (getData a * getData x)"
  by (auto simp: mul_eq split: if_splits)







section \<open>Properties of the PnL settlement loop\<close>

lemma settleLoop_zero:
  "getData pnl = 0 \<Longrightarrow> settleLoop own sign cands pnl tx = Inr (pnl, tx)"
  by (induction cands) (simp_all add: isPos_def isNeg_def gt_def ZERO_I80F48_def)

lemma settleLoop_full:
  "10 \<le> length tx \<Longrightarrow> settleLoop own sign cands pnl tx = Inr (pnl, tx)"
  by (induction cands) simp_all

lemma eligible_Cons:
  "eligible own sign (a # rest) =
     (if awp_publicKey a \<noteq> own \<and> sign * getData (awp_pnl a) < 0
      then a # eligible own sign rest else eligible own sign rest)"
  by (simp add: eligible_def)

lemma pnlSum_Cons: "pnlSum (a # as) = getData (awp_pnl a) + pnlSum as"
  by (simp add: pnlSum_def)

lemma pnlSum_Nil: "pnlSum [] = 0"
  by (simp add: pnlSum_def)

lemma opposite_sum_representable:
  assumes "representable x" "representable y" "0 < s * x" "s * y < 0" "s = 1 \<or> s = - 1"
  shows "representable (x + y)"
  using assms by (auto simp: representable_def)

lemma settleLoop_char:
  assumes "sign = 1 \<or> sign = - 1"
    and "0 < sign * getData pnl"
    and "representable (getData pnl)"
    and "candidatesRepresentable cands"
  shows "\<exists>k \<le> length (eligible own sign cands).
      settleLoop own sign cands pnl tx =
        Inr (I80F48 (getData pnl + pnlSum (take k (eligible own sign cands))),
             tx @ map (\<lambda>a. SettlePnl (awp_publicKey a)) (take k (eligible own sign cands))) \<and>
      (\<forall>j<k. 0 < sign * (getData pnl + pnlSum (take j (eligible own sign cands)))) \<and>
      (k = length (eligible own sign cands) \<or> 10 \<le> length tx + k \<or>
       sign * (getData pnl + pnlSum (take k (eligible own sign cands))) \<le> 0) \<and>
      (length tx \<le> 10 \<longrightarrow> length tx + k \<le> 10)"
  using assms(2-4)
proof (induction cands arbitrary: pnl tx)
  case Nil
  show ?case
    by (cases pnl) (simp add: eligible_def pnlSum_Nil)
next
  case (Cons a rest)
  let ?E = "eligible own sign rest"
  have rep_rest: "candidatesRepresentable rest" and rep_a: "representable (getData (awp_pnl a))"
    using Cons.prems(3) by (simp_all add: candidatesRepresentable_def)
  have cond: "((isPos pnl \<and> isNeg (awp_pnl a)) \<or> (isNeg pnl \<and> isPos (awp_pnl a))) \<longleftrightarrow>
      sign * getData (awp_pnl a) < 0"
    using assms(1) Cons.prems(1)
    by (auto simp: isPos_def isNeg_def gt_def ZERO_I80F48_def)
  show ?case
  proof (cases "awp_publicKey a \<noteq> own \<and> sign * getData (awp_pnl a) < 0")
    case False
    then have e: "eligible own sign (a # rest) = ?E"
      by (simp add: eligible_Cons)
    have s: "settleLoop own sign (a # rest) pnl tx = settleLoop own sign rest pnl tx"
      using False cond by auto
    show ?thesis
      unfolding e s by (rule Cons.IH[OF Cons.prems(1,2) rep_rest])
  next
    case True
    then have e: "eligible own sign (a # rest) = a # ?E"
      by (simp add: eligible_Cons)
    show ?thesis
    proof (cases "length tx < 10")
      case False
      then have "settleLoop own sign (a # rest) pnl tx = Inr (pnl, tx)"
        by (intro settleLoop_full) simp
      then have "settleLoop own sign (a # rest) pnl tx =
          Inr (I80F48 (getData pnl + pnlSum (take 0 (a # ?E))),
               tx @ map (\<lambda>a. SettlePnl (awp_publicKey a)) (take 0 (a # ?E)))"
        by (cases pnl) (simp add: pnlSum_Nil)
      then show ?thesis
        unfolding e using False by (intro exI[of _ 0]) simp
    next
      case lt: True
      let ?p = "getData pnl + getData (awp_pnl a)"
      let ?tx = "tx @ [SettlePnl (awp_publicKey a)]"
      have rp: "representable ?p"
        using opposite_sum_representable[OF Cons.prems(2) rep_a Cons.prems(1) _ assms(1)] True
        by simp
      have ad: "add pnl (awp_pnl a) = Inr (I80F48 ?p)"
        using rp by (simp add: add_eq)
      have step: "settleLoop own sign (a # rest) pnl tx =
          (if (if 0 < ?p then 1 else - 1) \<noteq> sign then Inr (I80F48 ?p, ?tx)
           else settleLoop own sign rest (I80F48 ?p) ?tx)"
        using True cond lt by (simp add: ad gt_def ZERO_I80F48_def Let_def)
      show ?thesis
      proof (cases "0 < sign * ?p")
        case pos: True
        then have same: "(if 0 < ?p then 1 else - 1) = sign"
          using assms(1) by (auto simp: zero_less_mult_iff)
        from Cons.IH[of "I80F48 ?p" ?tx] pos rp rep_rest
        obtain k where k: "k \<le> length ?E"
          and r: "settleLoop own sign rest (I80F48 ?p) ?tx =
            Inr (I80F48 (?p + pnlSum (take k ?E)),
                 ?tx @ map (\<lambda>a. SettlePnl (awp_publicKey a)) (take k ?E))"
          and inv: "\<forall>j<k. 0 < sign * (?p + pnlSum (take j ?E))"
          and stop: "k = length ?E \<or> 10 \<le> length ?tx + k \<or> sign * (?p + pnlSum (take k ?E)) \<le> 0"
          and cap: "length ?tx \<le> 10 \<longrightarrow> length ?tx + k \<le> 10"
          by auto
        have inv': "\<forall>j<Suc k. 0 < sign * (getData pnl + pnlSum (take j (a # ?E)))"
        proof (intro allI impI)
          fix j assume "j < Suc k"
          then show "0 < sign * (getData pnl + pnlSum (take j (a # ?E)))"
            using inv Cons.prems(1)
            by (cases j) (simp_all add: pnlSum_Nil pnlSum_Cons add.assoc)
        qed
        have full: "settleLoop own sign (a # rest) pnl tx =
            settleLoop own sign rest (I80F48 ?p) ?tx"
          using same by (simp only: step) simp
        show ?thesis
          unfolding e full
          using k r stop cap lt inv'
          by (intro exI[of _ "Suc k"]) (simp add: pnlSum_Cons add.assoc)
      next
        case npos: False
        have res: "settleLoop own sign (a # rest) pnl tx = Inr (I80F48 ?p, ?tx)"
        proof (cases "(if 0 < ?p then 1 else - 1) \<noteq> sign")
          case True
          then show ?thesis by (simp only: step) simp
        next
          case False
          then have "?p = 0"
            using npos assms(1) by (auto simp: zero_less_mult_iff split: if_splits)
          then have "settleLoop own sign rest (I80F48 ?p) ?tx = Inr (I80F48 ?p, ?tx)"
            by (intro settleLoop_zero) simp
          then show ?thesis using False by (simp only: step) simp
        qed
        have inv': "\<forall>j<Suc 0. 0 < sign * (getData pnl + pnlSum (take j (a # ?E)))"
          using Cons.prems(1) by (simp add: pnlSum_Nil)
        show ?thesis
          unfolding e res
          using npos lt inv'
          by (intro exI[of _ "Suc 0"]) (simp add: pnlSum_Cons pnlSum_Nil)
      qed
    qed
  qed
qed

lemma eligible_take_opposite:
  "a \<in> set (take k (eligible own sign cands)) \<Longrightarrow>
     awp_publicKey a \<noteq> own \<and> sign * getData (awp_pnl a) < 0 \<and> a \<in> set cands"
  by (auto simp: eligible_def dest: in_set_takeD)

lemma opposite_sum_nonpos:
  assumes "\<forall>a \<in> set as. sign * getData (awp_pnl a) < 0"
  shows "sign * pnlSum as \<le> 0"
  using assms
proof (induction as)
  case Nil
  then show ?case by (simp add: pnlSum_Nil)
next
  case (Cons a as)
  then have "sign * getData (awp_pnl a) < 0" "sign * pnlSum as \<le> 0" by auto
  then show ?case by (simp add: pnlSum_Cons distrib_left)
qed

text \<open>
  How \<^verbatim>\<open>settlePnl\<close> enters the loop: with sign 1, a positive PnL and an empty
  transaction, or with sign -1, a PnL of at most \<open>-0.000001\<close> and the settle-fees
  instruction queued.
\<close>

lemma settlePnl_entry:
  "getData pnl = 0 \<Longrightarrow> settlePnl own pnl fees cands = Inr None"
  "0 < getData pnl \<Longrightarrow>
     settlePnl own pnl fees cands =
       bindE (settleLoop own 1 (cands 1) pnl []) (\<lambda>r. Inr (Some r))"
  "getData pnl < 0 \<Longrightarrow> add pnl fees = Inr p \<Longrightarrow>
     getData (min_I80F48 p MINUS_EPSILON) < 0 \<and>
     settlePnl own pnl fees cands =
       bindE (settleLoop own (- 1) (cands (- 1)) (min_I80F48 p MINUS_EPSILON) [SettleFees])
         (\<lambda>r. Inr (Some r))"
  by (auto simp: settlePnl_def eq_def gt_def ZERO_I80F48_def min_I80F48_def lte_def
      MINUS_EPSILON_def Let_def)

text \<open>
  Claim C5, as amended. Started with a remaining PnL of the sign \<open>sign\<close>, representable
  candidates and at most 10 queued instructions, the loop returns, and the
  counterparties it matches are a prefix of the eligible candidates in list order:
  never the subject's own account, always of the opposite sign, and never more than
  bring the transaction to 10 instructions. Before each match the remaining PnL still
  has its original sign and a magnitude that does not exceed the pre-settlement
  magnitude; the remaining PnL only moves toward and past zero, so the last match can
  overshoot. Matching stops at the first match that leaves the PnL zero or of the
  other sign, or at 10 instructions, or when no eligible candidate is left.
\<close>

theorem settle_loop_matching:
  assumes "sign = 1 \<and> 0 < getData pnl \<or> sign = - 1 \<and> getData pnl < 0"
    and "representable (getData pnl)"
    and "candidatesRepresentable cands"
    and "length tx \<le> 10"
  shows "\<exists>matched.
     (\<exists>k. matched = take k (eligible own sign cands)) \<and>
     settleLoop own sign cands pnl tx =
       Inr (I80F48 (getData pnl + pnlSum matched),
            tx @ map (\<lambda>a. SettlePnl (awp_publicKey a)) matched) \<and>
     list_all (\<lambda>a. awp_publicKey a \<noteq> own \<and> sign * getData (awp_pnl a) < 0) matched \<and>
     length tx + length matched \<le> 10 \<and>
     (\<forall>j < length matched.
        0 < sign * (getData pnl + pnlSum (take j matched)) \<and>
        \<bar>getData pnl + pnlSum (take j matched)\<bar> \<le> \<bar>getData pnl\<bar>) \<and>
     sign * (getData pnl + pnlSum matched) \<le> sign * getData pnl \<and>
     (matched = eligible own sign cands \<or> length tx + length matched = 10 \<or>
      sign * (getData pnl + pnlSum matched) \<le> 0)"
proof -
  let ?E = "eligible own sign cands"
  have sg: "sign = 1 \<or> sign = - 1" and pos: "0 < sign * getData pnl"
    using assms(1) by auto
  from settleLoop_char[OF sg pos assms(2,3), of own tx]
  obtain k where k: "k \<le> length ?E"
    and r: "settleLoop own sign cands pnl tx =
        Inr (I80F48 (getData pnl + pnlSum (take k ?E)),
             tx @ map (\<lambda>a. SettlePnl (awp_publicKey a)) (take k ?E))"
    and inv: "\<forall>j<k. 0 < sign * (getData pnl + pnlSum (take j ?E))"
    and stop: "k = length ?E \<or> 10 \<le> length tx + k \<or>
       sign * (getData pnl + pnlSum (take k ?E)) \<le> 0"
    and cap: "length tx + k \<le> 10"
    using assms(4) by auto
  let ?m = "take k ?E"
  have len: "length ?m = k" using k by simp
  have opp: "\<forall>a \<in> set (take j ?E). sign * getData (awp_pnl a) < 0" for j
    using eligible_take_opposite by blast
  have all: "list_all (\<lambda>a. awp_publicKey a \<noteq> own \<and> sign * getData (awp_pnl a) < 0) ?m"
    unfolding list_all_iff using eligible_take_opposite by blast
  have down: "sign * (getData pnl + pnlSum (take j ?E)) \<le> sign * getData pnl" for j
    using opposite_sum_nonpos[OF opp, of j] by (simp add: distrib_left)
  have mag: "\<bar>getData pnl + pnlSum (take j ?E)\<bar> \<le> \<bar>getData pnl\<bar>"
    if "0 < sign * (getData pnl + pnlSum (take j ?E))" for j
    using that down[of j] sg by auto
  have steps: "\<forall>j < length ?m.
        0 < sign * (getData pnl + pnlSum (take j ?m)) \<and>
        \<bar>getData pnl + pnlSum (take j ?m)\<bar> \<le> \<bar>getData pnl\<bar>"
  proof (intro allI impI)
    fix j assume "j < length ?m"
    then have j: "j < k" using len by simp
    then have t: "take j ?m = take j ?E" by (simp add: min_def)
    show "0 < sign * (getData pnl + pnlSum (take j ?m)) \<and>
        \<bar>getData pnl + pnlSum (take j ?m)\<bar> \<le> \<bar>getData pnl\<bar>"
      unfolding t using inv j mag by blast
  qed
  have fin: "?m = ?E \<or> length tx + length ?m = 10 \<or>
      sign * (getData pnl + pnlSum ?m) \<le> 0"
    using stop cap len by auto
  show ?thesis
    using r all cap len steps down[of k] fin
    by (intro exI[of _ ?m]) auto
qed

text \<open>
  An instance with four candidates: the subject's own account, a loss of 1, a gain of
  7 and a loss of 100, against a subject PnL of 5. The two losses of the other
  accounts are matched; the second overshoots to \<open>-96\<close>.
\<close>

theorem settle_loop_matching_witness:
  "((1::int) = 1 \<and> 0 < getData (I80F48 5) \<or> (1::int) = - 1 \<and> getData (I80F48 5) < 0) \<and>
   representable (getData (I80F48 5)) \<and>
   candidatesRepresentable
     [\<lparr>awp_publicKey = exKey 1, awp_pnl = I80F48 (- 100)\<rparr>,
      \<lparr>awp_publicKey = exKey 2, awp_pnl = I80F48 (- 1)\<rparr>,
      \<lparr>awp_publicKey = exKey 3, awp_pnl = I80F48 7\<rparr>,
      \<lparr>awp_publicKey = exKey 4, awp_pnl = I80F48 (- 100)\<rparr>] \<and>
   length ([] :: instruction list) \<le> 10 \<and>
   settleLoop (exKey 1) 1
     [\<lparr>awp_publicKey = exKey 1, awp_pnl = I80F48 (- 100)\<rparr>,
      \<lparr>awp_publicKey = exKey 2, awp_pnl = I80F48 (- 1)\<rparr>,
      \<lparr>awp_publicKey = exKey 3, awp_pnl = I80F48 7\<rparr>,
      \<lparr>awp_publicKey = exKey 4, awp_pnl = I80F48 (- 100)\<rparr>] (I80F48 5) [] =
     Inr (I80F48 (- 96), [SettlePnl (exKey 2), SettlePnl (exKey 4)]) \<and>
   (\<exists>matched.
      settleLoop (exKey 1) 1
        [\<lparr>awp_publicKey = exKey 1, awp_pnl = I80F48 (- 100)\<rparr>,
         \<lparr>awp_publicKey = exKey 2, awp_pnl = I80F48 (- 1)\<rparr>,
         \<lparr>awp_publicKey = exKey 3, awp_pnl = I80F48 7\<rparr>,
         \<lparr>awp_publicKey = exKey 4, awp_pnl = I80F48 (- 100)\<rparr>] (I80F48 5) [] =
        Inr (I80F48 (getData (I80F48 5) + pnlSum matched),
             [] @ map (\<lambda>a. SettlePnl (awp_publicKey a)) matched) \<and>
      length ([] :: instruction list) + length matched \<le> 10)"
proof -
  let ?cands = "[\<lparr>awp_publicKey = exKey 1, awp_pnl = I80F48 (- 100)\<rparr>,
      \<lparr>awp_publicKey = exKey 2, awp_pnl = I80F48 (- 1)\<rparr>,
      \<lparr>awp_publicKey = exKey 3, awp_pnl = I80F48 7\<rparr>,
      \<lparr>awp_publicKey = exKey 4, awp_pnl = I80F48 (- 100)\<rparr>]"
  have h1: "(1::int) = 1 \<and> 0 < getData (I80F48 5) \<or> (1::int) = - 1 \<and> getData (I80F48 5) < 0"
    by simp
  have h2: "representable (getData (I80F48 5))"
    by (simp add: representable_def MIN_BN_val MAX_BN_val)
  have h3: "candidatesRepresentable ?cands"
    by (simp add: candidatesRepresentable_def representable_def MIN_BN_val MAX_BN_val)
  have h4: "length ([] :: instruction list) \<le> 10" by simp
  have ev: "settleLoop (exKey 1) 1 ?cands (I80F48 5) [] =
     Inr (I80F48 (- 96), [SettlePnl (exKey 2), SettlePnl (exKey 4)])"
    by code_simp
  from settle_loop_matching [OF h1 h2 h3 h4, of "exKey 1"]
  have "\<exists>matched.
      settleLoop (exKey 1) 1 ?cands (I80F48 5) [] =
        Inr (I80F48 (getData (I80F48 5) + pnlSum matched),
             [] @ map (\<lambda>a. SettlePnl (awp_publicKey a)) matched) \<and>
      length ([] :: instruction list) + length matched \<le> 10"
    by blast
  then show ?thesis
    using h1 h2 h3 h4 ev by blast
qed

text \<open>
  The claim as the specification words it fails twice. One opposing candidate with a
  loss of 100 against a subject PnL of 5 is matched whole: the remaining PnL is \<open>-95\<close>,
  of larger magnitude than the pre-settlement 5. And with one opposing candidate of
  \<open>-1\<close> the loop ends at the end of the list with the PnL still positive (4) and one
  instruction queued: neither a change of sign nor the cap of 10.
\<close>

theorem settle_loop_counterexample:
  "settleLoop (exKey 1) 1 [\<lparr>awp_publicKey = exKey 2, awp_pnl = I80F48 (- 100)\<rparr>] (I80F48 5) [] =
     Inr (I80F48 (- 95), [SettlePnl (exKey 2)]) \<and>
   \<bar>getData (I80F48 (- 95))\<bar> > \<bar>getData (I80F48 5)\<bar> \<and>
   \<bar>getData (I80F48 5) - getData (I80F48 (- 95))\<bar> > \<bar>getData (I80F48 5)\<bar> \<and>
   settleLoop (exKey 1) 1 [\<lparr>awp_publicKey = exKey 2, awp_pnl = I80F48 (- 1)\<rparr>] (I80F48 5) [] =
     Inr (I80F48 4, [SettlePnl (exKey 2)]) \<and>
   0 < getData (I80F48 4) \<and> length [SettlePnl (exKey 2)] < 10"
proof -
  have a: "settleLoop (exKey 1) 1 [\<lparr>awp_publicKey = exKey 2, awp_pnl = I80F48 (- 100)\<rparr>]
      (I80F48 5) [] = Inr (I80F48 (- 95), [SettlePnl (exKey 2)])"
    by code_simp
  have b: "settleLoop (exKey 1) 1 [\<lparr>awp_publicKey = exKey 2, awp_pnl = I80F48 (- 1)\<rparr>]
      (I80F48 5) [] = Inr (I80F48 4, [SettlePnl (exKey 2)])"
    by code_simp
  show ?thesis using a b by simp
qed

section \<open>Properties of \<^verbatim>\<open>getHealthComponents\<close>\<close>

lemma add_Inr: "add a x = Inr r \<Longrightarrow> getData r = getData a + getData x"
  by (auto simp: add_eq split: if_splits)

lemma sub_Inr: "sub a x = Inr r \<Longrightarrow> getData r = getData a - getData x"
  by (auto simp: sub_eq split: if_splits)

lemma div_Inr: "div_I80F48 a x = Inr r \<Longrightarrow> getData r = tdiv (getData a * 2 ^ 48) (getData x)"
  by (auto simp: div_eq split: if_splits)

lemma trunc48_negate: "trunc48 (x * getData NEG_ONE_I80F48) = - x"
proof -
  have "x * getData NEG_ONE_I80F48 = (- x) * 2 ^ 48"
    by (simp add: NEG_ONE_I80F48_def)
  then show ?thesis by (simp only: trunc48_shift)
qed

lemma neg_Inr: "neg a = Inr r \<Longrightarrow> getData r = - getData a"
  using mul_Inr[of a NEG_ONE_I80F48 r] by (simp add: neg_def trunc48_negate)

lemma abs_Inr: "abs_I80F48 a = Inr r \<Longrightarrow> getData r = \<bar>getData a\<bar>"
  by (auto simp: abs_I80F48_def isNeg_def dest: neg_Inr split: if_splits)

lemma evalSpot_result:
  assumes "evalSpot c a i hc = Inr hc'"
  shows "hc' = hc\<lparr>hc_spot := (hc_spot hc)[i := I80F48 (fst (spotOutcome c a i))],
                  hc_quote := I80F48 (getData (hc_quote hc) + snd (spotOutcome c a i))\<rparr>"
proof -
  from assms obtain pc baseNet where
    pc: "at (priceCache c) i = Some pc"
    and net: "getNet a (at (rootBankCache c) i) i = Inr baseNet"
    unfolding evalSpot_def Let_def bindE_Inr_iff atE_Inr_iff by blast
  let ?oo = "case at (spotOpenOrdersAccounts a) i of None \<Rightarrow> None | Some oo \<Rightarrow> oo"
  show ?thesis
  proof (cases "\<exists>oo. at (inMarginBasket a) i = Some True \<and> ?oo = Some oo")
    case False
    then have o: "spotOutcome c a i = (getData baseNet, 0)"
      by (auto simp: spotOutcome_def pc net split: option.splits bool.splits)
    from False assms have "hc' = hc\<lparr>hc_spot := (hc_spot hc)[i := baseNet]\<rparr>"
      by (auto simp: evalSpot_def Let_def atE_def pc net split: option.splits bool.splits)
    then show ?thesis by (simp add: o)
  next
    case True
    then obtain oo where b: "at (inMarginBasket a) i = Some True" and oo: "?oo = Some oo"
      by blast
    from assms obtain s t b0 asks ba aa where
      s: "splitOpenOrders oo = Inr s"
      and t: "div_I80F48 (quoteLocked s) (price pc) = Inr t"
      and b0: "add baseNet t = Inr b0"
      and asks: "add baseNet (baseFree s) = Inr asks"
      and ba: "abs_I80F48 (iadd (iadd b0 (baseFree s)) (baseLocked s)) = Inr ba"
      and aa: "abs_I80F48 asks = Inr aa"
      and r: "(if gt ba aa then
                 Inr (hc\<lparr>hc_spot := (hc_spot hc)[i := iadd (iadd b0 (baseFree s)) (baseLocked s)],
                         hc_quote := iadd (hc_quote hc) (quoteFree s)\<rparr>)
               else
                 bindE (mul (baseLocked s) (price pc)) (\<lambda>m.
                   Inr (hc\<lparr>hc_spot := (hc_spot hc)[i := asks],
                           hc_quote := iadd (iadd (iadd (hc_quote hc) m) (quoteFree s))
                                         (quoteLocked s)\<rparr>))) = Inr hc'"
      unfolding evalSpot_def Let_def
      by (auto simp: atE_def pc net b oo bindE_Inr_iff split: option.splits)
    let ?bids = "iadd (iadd b0 (baseFree s)) (baseLocked s)"
    have bd: "getData ?bids = fst (bidsHypothesis baseNet (price pc) s)"
      using div_Inr[OF t] add_Inr[OF b0] by (simp add: iadd_def bidsHypothesis_def)
    have ad: "getData asks = fst (asksHypothesis baseNet (price pc) s)"
      using add_Inr[OF asks] by (simp add: asksHypothesis_def)
    have g: "gt ba aa \<longleftrightarrow> \<bar>fst (bidsHypothesis baseNet (price pc) s)\<bar> >
                           \<bar>fst (asksHypothesis baseNet (price pc) s)\<bar>"
      using abs_Inr[OF ba] abs_Inr[OF aa] by (simp add: gt_def bd ad)
    have o: "spotOutcome c a i =
        worseHypothesis (bidsHypothesis baseNet (price pc) s) (asksHypothesis baseNet (price pc) s)"
      using oo by (simp add: spotOutcome_def pc net b s)
    show ?thesis
    proof (cases "gt ba aa")
      case True
      then have w: "spotOutcome c a i = bidsHypothesis baseNet (price pc) s"
        using g by (simp add: o worseHypothesis_def)
      from r True have "hc' = hc\<lparr>hc_spot := (hc_spot hc)[i := ?bids],
                         hc_quote := iadd (hc_quote hc) (quoteFree s)\<rparr>"
        by simp
      moreover have "?bids = I80F48 (fst (spotOutcome c a i))"
        using bd by (cases ?bids) (simp add: w)
      moreover have "iadd (hc_quote hc) (quoteFree s) =
          I80F48 (getData (hc_quote hc) + snd (spotOutcome c a i))"
        by (simp add: iadd_def w bidsHypothesis_def)
      ultimately show ?thesis by simp
    next
      case False
      then have w: "spotOutcome c a i = asksHypothesis baseNet (price pc) s"
        using g by (simp add: o worseHypothesis_def)
      from r False obtain m where m: "mul (baseLocked s) (price pc) = Inr m"
        and h: "hc' = hc\<lparr>hc_spot := (hc_spot hc)[i := asks],
                 hc_quote := iadd (iadd (iadd (hc_quote hc) m) (quoteFree s)) (quoteLocked s)\<rparr>"
        by (auto simp: bindE_Inr_iff)
      have "asks = I80F48 (fst (spotOutcome c a i))"
        using ad by (cases asks) (simp add: w)
      moreover have "iadd (iadd (iadd (hc_quote hc) m) (quoteFree s)) (quoteLocked s) =
          I80F48 (getData (hc_quote hc) + snd (spotOutcome c a i))"
        using mul_Inr[OF m] by (simp add: iadd_def w asksHypothesis_def)
      ultimately show ?thesis using h by simp
    qed
  qed
qed

lemma evalPerp_result:
  assumes "evalPerp gqp g c a i hc = Inr hc'"
  shows "\<exists>p. hc' = hc\<lparr>hc_perps := (hc_perps hc)[i := p],
                      hc_quote := I80F48 (getData (hc_quote hc) + perpQuoteAdj gqp g c a i)\<rparr>"
proof -
  let ?hc0 = "\<lparr>hc_spot = [], hc_perps = [], hc_quote = ZERO_I80F48\<rparr>"
  from assms obtain pc pmi where
    pc: "atE (priceCache c) i = Inr pc" and pmi: "atE (perpMarkets g) i = Inr pmi"
    unfolding evalPerp_def Let_def bindE_Inr_iff by blast
  show ?thesis
  proof (cases "perpMarket pmi = zeroKey")
    case True
    have "evalPerp gqp g c a i hcx = Inr (hcx\<lparr>hc_perps := (hc_perps hcx)[i := ZERO_I80F48]\<rparr>)"
      for hcx
      by (simp add: evalPerp_def Let_def pc pmi True)
    then have "hc' = hc\<lparr>hc_perps := (hc_perps hc)[i := ZERO_I80F48]\<rparr>"
      and "perpQuoteAdj gqp g c a i = 0"
      using assms by (simp_all add: perpQuoteAdj_def ZERO_I80F48_def)
    then show ?thesis by auto
  next
    case False
    from assms obtain pa tq bp bq aq bids asks ba aa qp q1 where
      pa: "atE (perpAccounts a) i = Inr pa"
      and tq: "fromI64 (takerQuote pa * quoteLotSize pmi) = Inr tq"
      and bp: "fromI64 ((basePosition pa + takerBase pa) * baseLotSize pmi) = Inr bp"
      and bq: "fromI64 (bidsQuantity pa * baseLotSize pmi) = Inr bq"
      and aq: "fromI64 (asksQuantity pa * baseLotSize pmi) = Inr aq"
      and bids: "add bp bq = Inr bids" and asks: "sub bp aq = Inr asks"
      and ba: "abs_I80F48 bids = Inr ba" and aa: "abs_I80F48 asks = Inr aa"
      and qp: "gqp pa (at (perpMarketCache c) i) = Inr qp"
      and q1: "add qp tq = Inr q1"
      unfolding evalPerp_def Let_def
      by (auto simp: pc pmi False bindE_Inr_iff split: if_splits)
    show ?thesis
    proof (cases "gt ba aa")
      case True
      from assms obtain m where m: "mul bq (price pc) = Inr m"
        unfolding evalPerp_def Let_def
        by (auto simp: pc pmi False pa tq bp bq aq bids asks ba aa qp q1 True bindE_Inr_iff)
      have "evalPerp gqp g c a i hcx =
          Inr (hcx\<lparr>hc_perps := (hc_perps hcx)[i := bids],
                   hc_quote := iadd (hc_quote hcx) (isub q1 m)\<rparr>)" for hcx
        by (simp add: evalPerp_def Let_def pc pmi False pa tq bp bq aq bids asks ba aa qp q1
            True m)
      then have "hc' = hc\<lparr>hc_perps := (hc_perps hc)[i := bids],
                   hc_quote := iadd (hc_quote hc) (isub q1 m)\<rparr>"
        and "perpQuoteAdj gqp g c a i = getData (isub q1 m)"
        using assms by (simp_all add: perpQuoteAdj_def ZERO_I80F48_def iadd_def)
      then show ?thesis by (auto simp: iadd_def)
    next
      case nb: False
      from assms obtain m where m: "mul aq (price pc) = Inr m"
        unfolding evalPerp_def Let_def
        by (auto simp: pc pmi False pa tq bp bq aq bids asks ba aa qp q1 nb bindE_Inr_iff)
      have "evalPerp gqp g c a i hcx =
          Inr (hcx\<lparr>hc_perps := (hc_perps hcx)[i := asks],
                   hc_quote := iadd (hc_quote hcx) (iadd q1 m)\<rparr>)" for hcx
        by (simp add: evalPerp_def Let_def pc pmi False pa tq bp bq aq bids asks ba aa qp q1
            nb m)
      then have "hc' = hc\<lparr>hc_perps := (hc_perps hc)[i := asks],
                   hc_quote := iadd (hc_quote hc) (iadd q1 m)\<rparr>"
        and "perpQuoteAdj gqp g c a i = getData (iadd q1 m)"
        using assms by (simp_all add: perpQuoteAdj_def ZERO_I80F48_def iadd_def)
      then show ?thesis by (auto simp: iadd_def)
    qed
  qed
qed

lemma step_result:
  assumes "bindE (evalSpot c a i hc) (evalPerp gqp g c a i) = Inr hc'"
  shows "\<exists>p. hc' = hc\<lparr>hc_spot := (hc_spot hc)[i := I80F48 (fst (spotOutcome c a i))],
                      hc_perps := (hc_perps hc)[i := p],
                      hc_quote := I80F48 (getData (hc_quote hc) +
                                    (snd (spotOutcome c a i) + perpQuoteAdj gqp g c a i))\<rparr>"
proof -
  from assms obtain h1 where s: "evalSpot c a i hc = Inr h1"
    and p: "evalPerp gqp g c a i h1 = Inr hc'"
    by (auto simp: bindE_Inr_iff)
  from evalPerp_result[OF p] obtain v where
    "hc' = h1\<lparr>hc_perps := (hc_perps h1)[i := v],
               hc_quote := I80F48 (getData (hc_quote h1) + perpQuoteAdj gqp g c a i)\<rparr>"
    by blast
  then show ?thesis
    unfolding evalSpot_result[OF s] by (intro exI[of _ v]) (simp add: add.assoc)
qed

lemma components_loop_all:
  assumes "foldE (\<lambda>i hc. bindE (evalSpot c a i hc) (evalPerp gqp g c a i)) js hc = Inr hc'"
  shows "getData (hc_quote hc') =
           getData (hc_quote hc) + (\<Sum>j\<leftarrow>js. snd (spotOutcome c a j) + perpQuoteAdj gqp g c a j) \<and>
         length (hc_spot hc') = length (hc_spot hc) \<and>
         (\<forall>i. i \<notin> set js \<longrightarrow> hc_spot hc' ! i = hc_spot hc ! i) \<and>
         (\<forall>i. i \<in> set js \<longrightarrow> i < length (hc_spot hc) \<longrightarrow>
              hc_spot hc' ! i = I80F48 (fst (spotOutcome c a i)))"
  using assms
proof (induction js arbitrary: hc)
  case Nil
  then show ?case by simp
next
  case (Cons j js)
  then obtain h1 where s: "bindE (evalSpot c a j hc) (evalPerp gqp g c a j) = Inr h1"
    and f: "foldE (\<lambda>i hc. bindE (evalSpot c a i hc) (evalPerp gqp g c a i)) js h1 = Inr hc'"
    by (auto simp: bindE_Inr_iff)
  from step_result[OF s] obtain p where
    h1: "h1 = hc\<lparr>hc_spot := (hc_spot hc)[j := I80F48 (fst (spotOutcome c a j))],
                  hc_perps := (hc_perps hc)[j := p],
                  hc_quote := I80F48 (getData (hc_quote hc) +
                                (snd (spotOutcome c a j) + perpQuoteAdj gqp g c a j))\<rparr>"
    by blast
  have q1: "getData (hc_quote h1) =
      getData (hc_quote hc) + (snd (spotOutcome c a j) + perpQuoteAdj gqp g c a j)"
    and l1: "length (hc_spot h1) = length (hc_spot hc)"
    and s1: "hc_spot h1 = (hc_spot hc)[j := I80F48 (fst (spotOutcome c a j))]"
    by (simp_all add: h1)
  note ih = Cons.IH[OF f]
  have a: "getData (hc_quote hc') =
      getData (hc_quote hc) + (\<Sum>j\<leftarrow>j # js. snd (spotOutcome c a j) + perpQuoteAdj gqp g c a j)"
    using ih q1 by simp
  have b: "length (hc_spot hc') = length (hc_spot hc)"
    using ih l1 by simp
  have c: "hc_spot hc' ! i = hc_spot hc ! i" if "i \<notin> set (j # js)" for i
  proof -
    from that have "i \<notin> set js" "i \<noteq> j" by auto
    then show ?thesis using ih by (simp add: s1)
  qed
  have d: "hc_spot hc' ! i = I80F48 (fst (spotOutcome c a i))"
    if "i \<in> set (j # js)" "i < length (hc_spot hc)" for i
  proof (cases "i \<in> set js")
    case True
    then show ?thesis using ih that(2) l1 by simp
  next
    case False
    then have ij: "i = j" using that(1) by simp
    from False ih have "hc_spot hc' ! i = hc_spot h1 ! i" by blast
    then show ?thesis using that(2) by (simp add: s1 ij)
  qed
  show ?case using a b c d by blast
qed

lemma loop_evalSpot_succeeds:
  assumes "foldE (\<lambda>i hc. bindE (evalSpot c a i hc) (evalPerp gqp g c a i)) js hc = Inr hc'"
    and "i \<in> set js"
  shows "\<exists>h1 h2. evalSpot c a i h1 = Inr h2"
  using assms
proof (induction js arbitrary: hc)
  case Nil
  then show ?case by simp
next
  case (Cons j js)
  then obtain h1 where s: "bindE (evalSpot c a j hc) (evalPerp gqp g c a j) = Inr h1"
    and f: "foldE (\<lambda>i hc. bindE (evalSpot c a i hc) (evalPerp gqp g c a i)) js h1 = Inr hc'"
    by (auto simp: bindE_Inr_iff)
  show ?case
  proof (cases "i = j")
    case True
    then show ?thesis using s by (auto simp: bindE_Inr_iff)
  next
    case False
    then show ?thesis using Cons.IH[OF f] Cons.prems(2) by simp
  qed
qed

lemma evalSpot_basket_facts:
  assumes "evalSpot c a i h1 = Inr h2"
    and "at (inMarginBasket a) i = Some True"
    and "at (spotOpenOrdersAccounts a) i = Some (Some oo)"
  shows "\<exists>pc baseNet s.
     at (priceCache c) i = Some pc \<and>
     getNet a (at (rootBankCache c) i) i = Inr baseNet \<and>
     splitOpenOrders oo = Inr s \<and>
     spotOutcome c a i =
       worseHypothesis (bidsHypothesis baseNet (price pc) s) (asksHypothesis baseNet (price pc) s)"
proof -
  from assms(1) obtain pc baseNet where
    pc: "at (priceCache c) i = Some pc"
    and net: "getNet a (at (rootBankCache c) i) i = Inr baseNet"
    unfolding evalSpot_def Let_def bindE_Inr_iff atE_Inr_iff by blast
  from assms obtain s where s: "splitOpenOrders oo = Inr s"
    unfolding evalSpot_def Let_def
    by (auto simp: atE_def pc net bindE_Inr_iff)
  show ?thesis
    using pc net s by (simp add: spotOutcome_def assms(2,3))
qed

lemma splitOpenOrders_values:
  assumes "splitOpenOrders oo = Inr s"
  shows "getData (quoteFree s) = (quoteTokenFree oo + referrerRebatesAccrued oo) * 2 ^ 48"
    and "getData (quoteLocked s) = (quoteTokenTotal oo - quoteTokenFree oo) * 2 ^ 48"
    and "getData (baseFree s) = baseTokenFree oo * 2 ^ 48"
    and "getData (baseLocked s) = (baseTokenTotal oo - baseTokenFree oo) * 2 ^ 48"
  using assms
  by (auto simp: splitOpenOrders_def fromU64_def bn_ushln_eq new_I80F48_eq bindE_Inr_iff
      split: if_splits)

text \<open>
  Claim C2. Whenever \<^verbatim>\<open>getHealthComponents\<close> returns, then for every market index \<open>i\<close>
  below the number of oracles at which the account is in the margin basket and has an
  open-orders account: the confirmed net, the price and the split of the open orders
  were computed; the spot component at \<open>i\<close> is the spot position of the worse of the
  bids hypothesis and the asks hypothesis; the quote adjustment of the market is the
  one of that same hypothesis; and the quote component is the net quote position plus,
  over all markets, the spot quote adjustment and what the perp half adds.
\<close>

theorem health_components_spot_hypotheses:
  assumes "getHealthComponents gqp g c a = Inr hc"
    and "i < numOracles g"
    and "at (inMarginBasket a) i = Some True"
    and "at (spotOpenOrdersAccounts a) i = Some (Some oo)"
  shows "\<exists>pc baseNet s q0.
     at (priceCache c) i = Some pc \<and>
     getNet a (at (rootBankCache c) i) i = Inr baseNet \<and>
     splitOpenOrders oo = Inr s \<and>
     getData (quoteFree s) = (quoteTokenFree oo + referrerRebatesAccrued oo) * 2 ^ 48 \<and>
     getData (quoteLocked s) = (quoteTokenTotal oo - quoteTokenFree oo) * 2 ^ 48 \<and>
     getData (baseFree s) = baseTokenFree oo * 2 ^ 48 \<and>
     getData (baseLocked s) = (baseTokenTotal oo - baseTokenFree oo) * 2 ^ 48 \<and>
     getNet a (at (rootBankCache c) QUOTE_INDEX) QUOTE_INDEX = Inr q0 \<and>
     getData (hc_spot hc ! i) =
       fst (worseHypothesis (bidsHypothesis baseNet (price pc) s)
              (asksHypothesis baseNet (price pc) s)) \<and>
     snd (spotOutcome c a i) =
       snd (worseHypothesis (bidsHypothesis baseNet (price pc) s)
              (asksHypothesis baseNet (price pc) s)) \<and>
     getData (hc_quote hc) =
       getData q0 + (\<Sum>j\<leftarrow>[0 ..< numOracles g].
                       snd (spotOutcome c a j) + perpQuoteAdj gqp g c a j)"
proof -
  let ?init = "\<lambda>q. \<lparr>hc_spot = replicate (numOracles g) ZERO_I80F48,
                    hc_perps = replicate (numOracles g) ZERO_I80F48, hc_quote = q\<rparr>"
  from assms(1) obtain q0 where
    q0: "getNet a (at (rootBankCache c) QUOTE_INDEX) QUOTE_INDEX = Inr q0"
    and f: "foldE (\<lambda>i hc. bindE (evalSpot c a i hc) (evalPerp gqp g c a i))
              [0 ..< numOracles g] (?init q0) = Inr hc"
    unfolding getHealthComponents_def bindE_Inr_iff by blast
  have mem: "i \<in> set [0 ..< numOracles g]" using assms(2) by simp
  from loop_evalSpot_succeeds[OF f mem] obtain h1 h2 where "evalSpot c a i h1 = Inr h2"
    by blast
  from evalSpot_basket_facts[OF this assms(3,4)] obtain pc baseNet s where
    pc: "at (priceCache c) i = Some pc"
    and net: "getNet a (at (rootBankCache c) i) i = Inr baseNet"
    and s: "splitOpenOrders oo = Inr s"
    and o: "spotOutcome c a i =
       worseHypothesis (bidsHypothesis baseNet (price pc) s) (asksHypothesis baseNet (price pc) s)"
    by blast
  have sp: "hc_spot hc ! i = I80F48 (fst (spotOutcome c a i))"
    using components_loop_all[OF f] mem assms(2) by simp
  have qu: "getData (hc_quote hc) =
       getData q0 + (\<Sum>j\<leftarrow>[0 ..< numOracles g].
                       snd (spotOutcome c a j) + perpQuoteAdj gqp g c a j)"
    using components_loop_all[OF f] by simp
  show ?thesis
    using pc net s q0 splitOpenOrders_values[OF s] qu
    by (intro exI[of _ pc] exI[of _ baseNet] exI[of _ s] exI[of _ q0]) (simp add: sp o)
qed

text \<open>
  Two instances at price 2 with 3 base free, 2 base locked, 4 quote free and 6 quote
  locked. With a deposit of 2 the bids hypothesis has the spot position
  \<open>2 + 6/2 + 3 + 2 = 10\<close> against \<open>2 + 3 = 5\<close> for the asks: the bids are selected, the
  spot component is 10 and the quote grows by the 4 of quote-free. With a borrow of 8
  the bids give 0 and the asks \<open>-5\<close>: the asks are selected, the spot component is
  \<open>-5\<close> and the quote grows by \<open>2 * 2 + 4 + 6 = 14\<close>.
\<close>

theorem health_components_spot_hypotheses_witness:
  "getHealthComponents noFunding exGroup (exCache (I80F48 (2 * 2 ^ 48)))
      (exBasketAccount (I80F48 (2 * 2 ^ 48)) (I80F48 0)) =
     Inr \<lparr>hc_spot = [I80F48 (10 * 2 ^ 48)], hc_perps = [I80F48 0], hc_quote = I80F48 (4 * 2 ^ 48)\<rparr> \<and>
   getHealthComponents noFunding exGroup (exCache (I80F48 (2 * 2 ^ 48)))
      (exBasketAccount (I80F48 0) (I80F48 (8 * 2 ^ 48))) =
     Inr \<lparr>hc_spot = [I80F48 (- (5 * 2 ^ 48))], hc_perps = [I80F48 0],
          hc_quote = I80F48 (14 * 2 ^ 48)\<rparr> \<and>
   0 < numOracles exGroup \<and>
   at (inMarginBasket (exBasketAccount (I80F48 (2 * 2 ^ 48)) (I80F48 0))) 0 = Some True \<and>
   at (spotOpenOrdersAccounts (exBasketAccount (I80F48 (2 * 2 ^ 48)) (I80F48 0))) 0 =
     Some (Some exOpenOrders) \<and>
   (\<exists>(pc::PriceCache) baseNet s.
      splitOpenOrders exOpenOrders = Inr s \<and>
      getData (hc_spot \<lparr>hc_spot = [I80F48 (10 * 2 ^ 48)], hc_perps = [I80F48 0],
                        hc_quote = I80F48 (4 * 2 ^ 48)\<rparr> ! 0) =
        fst (worseHypothesis (bidsHypothesis baseNet (price pc) s)
               (asksHypothesis baseNet (price pc) s))) \<and>
   (\<exists>(pc::PriceCache) baseNet s.
      splitOpenOrders exOpenOrders = Inr s \<and>
      getData (hc_spot \<lparr>hc_spot = [I80F48 (- (5 * 2 ^ 48))], hc_perps = [I80F48 0],
                        hc_quote = I80F48 (14 * 2 ^ 48)\<rparr> ! 0) =
        fst (worseHypothesis (bidsHypothesis baseNet (price pc) s)
               (asksHypothesis baseNet (price pc) s))) \<and>
   spotOutcome (exCache (I80F48 (2 * 2 ^ 48))) (exBasketAccount (I80F48 (2 * 2 ^ 48)) (I80F48 0)) 0 =
     (10 * 2 ^ 48, 4 * 2 ^ 48) \<and>
   spotOutcome (exCache (I80F48 (2 * 2 ^ 48))) (exBasketAccount (I80F48 0) (I80F48 (8 * 2 ^ 48))) 0 =
     (- (5 * 2 ^ 48), 14 * 2 ^ 48)"
proof -
  let ?c = "exCache (I80F48 (2 * 2 ^ 48))"
  let ?a1 = "exBasketAccount (I80F48 (2 * 2 ^ 48)) (I80F48 0)"
  let ?a2 = "exBasketAccount (I80F48 0) (I80F48 (8 * 2 ^ 48))"
  let ?h1 = "\<lparr>hc_spot = [I80F48 (10 * 2 ^ 48)], hc_perps = [I80F48 0],
              hc_quote = I80F48 (4 * 2 ^ 48)\<rparr>"
  let ?h2 = "\<lparr>hc_spot = [I80F48 (- (5 * 2 ^ 48))], hc_perps = [I80F48 0],
              hc_quote = I80F48 (14 * 2 ^ 48)\<rparr>"
  have e1: "getHealthComponents noFunding exGroup ?c ?a1 = Inr ?h1"
    by code_simp
  have e2: "getHealthComponents noFunding exGroup ?c ?a2 = Inr ?h2"
    by code_simp
  have n: "0 < numOracles exGroup"
    by (simp add: exGroup_def)
  have b1: "at (inMarginBasket ?a1) 0 = Some True"
    and o1: "at (spotOpenOrdersAccounts ?a1) 0 = Some (Some exOpenOrders)"
    and b2: "at (inMarginBasket ?a2) 0 = Some True"
    and o2: "at (spotOpenOrdersAccounts ?a2) 0 = Some (Some exOpenOrders)"
    by (simp_all add: exBasketAccount_def at_def)
  have s1: "spotOutcome ?c ?a1 0 = (10 * 2 ^ 48, 4 * 2 ^ 48)"
    by code_simp
  have s2: "spotOutcome ?c ?a2 0 = (- (5 * 2 ^ 48), 14 * 2 ^ 48)"
    by code_simp
  from health_components_spot_hypotheses [OF e1 n b1 o1]
  have w1: "\<exists>(pc::PriceCache) baseNet s.
      splitOpenOrders exOpenOrders = Inr s \<and>
      getData (hc_spot ?h1 ! 0) =
        fst (worseHypothesis (bidsHypothesis baseNet (price pc) s)
               (asksHypothesis baseNet (price pc) s))"
    by blast
  from health_components_spot_hypotheses [OF e2 n b2 o2]
  have w2: "\<exists>(pc::PriceCache) baseNet s.
      splitOpenOrders exOpenOrders = Inr s \<and>
      getData (hc_spot ?h2 ! 0) =
        fst (worseHypothesis (bidsHypothesis baseNet (price pc) s)
               (asksHypothesis baseNet (price pc) s))"
    by blast
  show ?thesis
    by (intro conjI e1 e2 n b1 o1 w1 w2 s1 s2)
qed

section \<open>Properties of the legacy instruction decode\<close>

text \<open>
  What \<^verbatim>\<open>LyraeInstructionsUnion.decode\<close> does for the pairs (12, 30) and (37, 141): the
  padded buffer it decodes has exactly the current length of the variant
  (discriminator and structure), 31 and 143 bytes.
\<close>

lemma variantLength_legacy:
  "variantLength 11 = Some 149" "variantLength 12 = Some 31" "variantLength 37 = Some 143"
  by code_simp+

lemma legacy_12_padded_to_variant_length:
  assumes "readUIntLE b offset 4 = Inr 12" and "length b = 30"
  shows "LyraeInstructionsUnion_decode b offset = Union_decode (b @ [0]) offset \<and>
         variantLength 12 = Some (length (b @ [0]))"
  using assms by (simp add: LyraeInstructionsUnion_decode_def variantLength_legacy)

lemma legacy_37_padded_to_variant_length:
  assumes "readUIntLE b offset 4 = Inr 37" and "length b = 141"
  shows "LyraeInstructionsUnion_decode b offset = Union_decode (b @ [0, 0]) offset \<and>
         variantLength 37 = Some (length (b @ [0, 0]))"
  using assms by (simp add: LyraeInstructionsUnion_decode_def variantLength_legacy)

text \<open>Every other buffer is decoded as it is, also one whose discriminator cannot be read.\<close>

lemma other_buffers_not_padded:
  assumes "\<not> (readUIntLE b offset 4 = Inr 11 \<and> length b = 144)"
    and "\<not> (readUIntLE b offset 4 = Inr 12 \<and> length b = 30)"
    and "\<not> (readUIntLE b offset 4 = Inr 37 \<and> length b = 141)"
  shows "LyraeInstructionsUnion_decode b offset = Union_decode b offset"
proof (cases "readUIntLE b offset 4")
  case (Inl e)
  then show ?thesis
    by (simp add: LyraeInstructionsUnion_decode_def Union_decode_def)
next
  case (Inr d)
  then show ?thesis
    using assms by (auto simp: LyraeInstructionsUnion_decode_def Let_def)
qed

text \<open>
  For the pair (11, 144) the one zero byte does not reach the variant's length: the
  \<^verbatim>\<open>AddPerpMarket\<close> structure spans 145 bytes behind the 4 bytes of the discriminator,
  149 in all, and the padded buffer has 145.
\<close>

lemma legacy_11_padded_short_of_variant_length:
  assumes "readUIntLE b offset 4 = Inr 11" and "length b = 144"
  shows "LyraeInstructionsUnion_decode b offset = Union_decode (b @ [0]) offset \<and>
         length (b @ [0]) = 145 \<and> variantLength 11 = Some 149"
  using assms by (simp add: LyraeInstructionsUnion_decode_def variantLength_legacy)

text \<open>
  Claim C3, at the input where the code departs from it. A buffer of 144 bytes with
  the discriminant 11 and a zero body matches the legacy pair (11, 144). The decode
  pads it to 145 bytes and throws the RangeError of the read of \<^verbatim>\<open>exp\<close> at offset
  148; the same buffer zero-padded to the variant's current length of 149 bytes
  decodes to an \<^verbatim>\<open>AddPerpMarket\<close> value. The legacy pairs (12, 30) and (37, 141) count
  the 4 bytes of the discriminator in their lengths; 144 is the legacy length of the
  structure of variant 11 without them.
\<close>

theorem legacy_11_decode_throws:
  "length (discrBytes 11 @ replicate 140 0) = 144 \<and>
   readUIntLE (discrBytes 11 @ replicate 140 0) 0 4 = Inr 11 \<and>
   variantLength 11 = Some (length ((discrBytes 11 @ replicate 140 0) @ replicate 5 0)) \<and>
   LyraeInstructionsUnion_decode (discrBytes 11 @ replicate 140 0) 0 = Inl OutOfBounds \<and>
   Union_decode ((discrBytes 11 @ replicate 140 0) @ replicate 5 0) 0 =
     Inr (''AddPerpMarket'',
          [(''maintLeverage'', VFixed (I80F48 0)), (''initLeverage'', VFixed (I80F48 0)),
           (''liquidationFee'', VFixed (I80F48 0)), (''makerFee'', VFixed (I80F48 0)),
           (''takerFee'', VFixed (I80F48 0)), (''baseLotSize'', VBN 0),
           (''quoteLotSize'', VBN 0), (''rate'', VFixed (I80F48 0)),
           (''maxDepthBps'', VFixed (I80F48 0)), (''targetPeriodLength'', VBN 0),
           (''lyrPerPeriod'', VBN 0), (''exp'', VNumber 0)])"
proof -
  have a: "length (discrBytes 11 @ replicate 140 0) = 144"
    by (simp add: discrBytes_def length_le_bytes)
  have b: "readUIntLE (discrBytes 11 @ replicate 140 0) 0 4 = Inr 11"
    by code_simp
  have c: "variantLength 11 = Some (length ((discrBytes 11 @ replicate 140 0) @ replicate 5 0))"
    by (simp add: variantLength_legacy discrBytes_def length_le_bytes)
  have d: "LyraeInstructionsUnion_decode (discrBytes 11 @ replicate 140 0) 0 = Inl OutOfBounds"
    by code_simp
  have e: "Union_decode ((discrBytes 11 @ replicate 140 0) @ replicate 5 0) 0 =
     Inr (''AddPerpMarket'',
          [(''maintLeverage'', VFixed (I80F48 0)), (''initLeverage'', VFixed (I80F48 0)),
           (''liquidationFee'', VFixed (I80F48 0)), (''makerFee'', VFixed (I80F48 0)),
           (''takerFee'', VFixed (I80F48 0)), (''baseLotSize'', VBN 0),
           (''quoteLotSize'', VBN 0), (''rate'', VFixed (I80F48 0)),
           (''maxDepthBps'', VFixed (I80F48 0)), (''targetPeriodLength'', VBN 0),
           (''lyrPerPeriod'', VBN 0), (''exp'', VNumber 0)])"
    by code_simp
  show ?thesis by (intro conjI a b c d e)
qed

text \<open>
  The failure does not depend on the body: every buffer of 144 bytes whose
  discriminant reads 11 makes the decode throw. The fixed-point and big-number fields
  in front of \<^verbatim>\<open>exp\<close> are slices and decode whatever the bytes, and \<^verbatim>\<open>exp\<close> lies
  behind the end of the padded buffer.
\<close>

lemma bn_of_le_bounds: "0 \<le> bn_of_le bs \<and> bn_of_le bs < 256 ^ length bs"
proof (induction bs)
  case Nil
  then show ?case by simp
next
  case (Cons b bs)
  have "0 \<le> uint b" "uint b < 256"
    using uint_bounded[of b] by simp_all
  then show ?case using Cons by simp
qed

lemma fromTwos128_representable:
  assumes "0 \<le> x" "x < 2 ^ 128"
  shows "representable (bn_fromTwos128 x)"
proof (cases "x < 2 ^ 127")
  case True
  then have "x div 2 ^ 127 = 0" using assms(1) by simp
  then show ?thesis using assms True
    by (simp add: bn_fromTwos128_def representable_def MIN_BN_val MAX_BN_val)
next
  case False
  then have ge: "2 ^ 127 \<le> x" by simp
  have "x div 2 ^ 127 = 1"
    using ge assms(2) by (intro int_div_pos_eq[where r = "x - 2^127"]) auto
  moreover have "x div 2 ^ 130 = 0" "x mod 2 ^ 128 = x" using assms by auto
  ultimately show ?thesis using assms ge
    by (simp add: bn_fromTwos128_def bn_inotn128_def representable_def MIN_BN_val MAX_BN_val)
qed

lemma I80F48Layout_decode_succeeds: "\<exists>v. I80F48Layout_decode b offset = Inr v"
proof -
  let ?s = "Blob_decode b offset 16"
  have "length ?s \<le> 16" by (simp add: Blob_decode_def)
  then have "(256::int) ^ length ?s \<le> 256 ^ 16"
    by (intro power_increasing) simp_all
  then have "0 \<le> bn_of_le ?s" "bn_of_le ?s < 2 ^ 128"
    using bn_of_le_bounds[of ?s] by simp_all
  then have "representable (bn_fromTwos128 (bn_of_le ?s))"
    by (rule fromTwos128_representable)
  then show ?thesis by (simp add: I80F48Layout_decode_def new_I80F48_eq)
qed

lemma structDecode_slices_then_error:
  assumes "list_all (\<lambda>f. snd f = FixedField \<or> (\<exists>n s. snd f = BNField n s)) pre"
    and "structDecode rest b (offset + structSpan pre) = Inl e"
  shows "structDecode (pre @ rest) b offset = Inl e"
  using assms
proof (induction pre arbitrary: offset)
  case Nil
  then show ?case by (simp add: structSpan_def)
next
  case (Cons f pre)
  obtain property fd where f: "f = (property, fd)" by (cases f)
  from Cons.prems(1) have fd: "fd = FixedField \<or> (\<exists>n s. fd = BNField n s)"
    and pre: "list_all (\<lambda>f. snd f = FixedField \<or> (\<exists>n s. snd f = BNField n s)) pre"
    by (simp_all add: f)
  have sp: "offset + structSpan (f # pre) = (offset + fieldSpan fd) + structSpan pre"
    by (simp add: structSpan_def f)
  have tl: "structDecode (pre @ rest) b (offset + fieldSpan fd) = Inl e"
    using Cons.IH[OF pre] Cons.prems(2) unfolding sp by simp
  have "\<exists>v. decodeField fd b offset = Inr v"
    using fd I80F48Layout_decode_succeeds[of b offset] by (auto simp: Let_def)
  then show ?case
    by (auto simp: f tl)
qed

lemma legacy_11_always_throws:
  assumes "readUIntLE b offset 4 = Inr 11" and "length b = 144"
  shows "LyraeInstructionsUnion_decode b offset = Inl OutOfBounds"
proof -
  let ?pre = "[(''maintLeverage'', FixedField), (''initLeverage'', FixedField),
       (''liquidationFee'', FixedField), (''makerFee'', FixedField), (''takerFee'', FixedField),
       (''baseLotSize'', BNField 8 True), (''quoteLotSize'', BNField 8 True),
       (''rate'', FixedField), (''maxDepthBps'', FixedField),
       (''targetPeriodLength'', BNField 8 False), (''lyrPerPeriod'', BNField 8 False)]"
  have off: "offset + 4 \<le> 144"
    using assms by (auto simp: readUIntLE_def split: if_splits)
  have r: "readUIntLE (b @ [0]) offset 4 = Inr 11"
    using assms off by (auto simp: readUIntLE_def split: if_splits)
  have m: "map_of registry 11 = Some (''AddPerpMarket'', ?pre @ [(''exp'', UInt 1)])"
    by code_simp
  have sp: "structSpan ?pre = 144"
    by (simp add: structSpan_def)
  have la: "list_all (\<lambda>f. snd f = FixedField \<or> (\<exists>n s. snd f = BNField n s)) ?pre"
    by auto
  have ex: "structDecode [(''exp'', UInt 1)] (b @ [0]) ((offset + 4) + structSpan ?pre) =
      Inl OutOfBounds"
    unfolding sp using assms(2) by (simp add: readUIntLE_def)
  have sd: "structDecode (?pre @ [(''exp'', UInt 1)]) (b @ [0]) (offset + 4) = Inl OutOfBounds"
    by (rule structDecode_slices_then_error[OF la ex])
  have pad: "LyraeInstructionsUnion_decode b offset = Union_decode (b @ [0]) offset"
    using assms by (simp add: LyraeInstructionsUnion_decode_def)
  show ?thesis
    unfolding pad Union_decode_def r bindE_Inr m option.case prod.case sd bindE_Inl
    by (rule refl)
qed

end
